theory Spec2Isabelle
  imports Complex_Main "HOL-Library.Code_Target_Nat"
begin

section \<open>Python values as the statement processors see them\<close>

text \<open>
  A Python \<open>str\<close> is a sequence of Unicode code points, so it is modelled as a list of
  natural numbers. ASCII literals are written \<open>lit ''WD''\<close>; other code points are
  given by number (\<open>0xF3\<close> is the o with acute accent of "Comisi\'on").
\<close>

type_synonym pystr = "nat list"

abbreviation (input) lit :: "string \<Rightarrow> pystr" where
  "lit s \<equiv> map of_char s"

text \<open>The exceptions that leave the functions modelled here.\<close>

datatype pyexc = DateRangeNotFoundError | OverflowError | ValueError

text \<open>
  A Python \<open>float\<close> is a binary64 value: a finite number, given by the rational it
  denotes (\<open>Finite 0\<close> is the positive zero), the negative zero, an infinity or NaN.
  The comparisons are those of IEEE 754: both zeros are equal, and every comparison
  with NaN is false.
\<close>

datatype pyfloat = Finite rat | NegZero | PosInf | NegInf | NaN

definition float_value :: "pyfloat \<Rightarrow> rat" where
  "float_value x = (case x of Finite r \<Rightarrow> r | _ \<Rightarrow> 0)"

text \<open>\<open>a > b\<close> and \<open>a <= b\<close>.\<close>

definition float_gt :: "pyfloat \<Rightarrow> pyfloat \<Rightarrow> bool" where
  "float_gt a b \<longleftrightarrow>
     a \<noteq> NaN \<and> b \<noteq> NaN \<and> a \<noteq> NegInf \<and> b \<noteq> PosInf
     \<and> (a = PosInf \<or> b = NegInf \<or> float_value a > float_value b)"

definition float_le :: "pyfloat \<Rightarrow> pyfloat \<Rightarrow> bool" where
  "float_le a b \<longleftrightarrow>
     a \<noteq> NaN \<and> b \<noteq> NaN
     \<and> (a = NegInf \<or> b = PosInf \<or> (a \<noteq> PosInf \<and> b \<noteq> NegInf \<and> float_value a \<le> float_value b))"

text \<open>
  A \<open>datetime\<close> is a day (the proleptic Gregorian ordinal of Python's
  \<open>date.toordinal\<close>, day 1 being 0001-01-01) and the microseconds elapsed in that day.
\<close>

datatype datetime = DateTime (dt_ordinal: int) (dt_micro: int)

text \<open>
  The values a worksheet cell can hold once read by xlrd or openpyxl. \<open>CBool\<close> is kept
  apart from \<open>CInt\<close> although \<open>isinstance(True, int)\<close> holds; \<open>CDate\<close> is a
  \<open>datetime.date\<close> that is not a \<open>datetime\<close>.
\<close>

datatype cell =
    CNone
  | CBool bool
  | CInt int
  | CFloat pyfloat
  | CStr pystr
  | CDateTime datetime
  | CDate int

subsection \<open>String methods\<close>

text \<open>The code points for which \<open>str.isspace\<close> holds; \<open>str.strip()\<close> removes them at both ends.\<close>

definition is_space :: "nat \<Rightarrow> bool" where
  "is_space c \<longleftrightarrow>
     (9 \<le> c \<and> c \<le> 13) \<or> (28 \<le> c \<and> c \<le> 32) \<or> c = 133 \<or> c = 160 \<or> c = 5760
     \<or> (8192 \<le> c \<and> c \<le> 8202) \<or> c = 8232 \<or> c = 8233 \<or> c = 8239 \<or> c = 8287 \<or> c = 12288"

definition py_strip :: "pystr \<Rightarrow> pystr" where
  "py_strip s = rev (dropWhile is_space (rev (dropWhile is_space s)))"

text \<open>\<open>s.replace(c, r)\<close> for a pattern \<open>c\<close> of one code point.\<close>

definition py_replace :: "nat \<Rightarrow> pystr \<Rightarrow> pystr \<Rightarrow> pystr" where
  "py_replace c r s = concat (map (\<lambda>x. if x = c then r else [x]) s)"

text \<open>\<open>s.count(c)\<close> and \<open>s.rfind(c)\<close> for one code point; \<open>rfind\<close> is -1 when absent.\<close>

definition py_count :: "nat \<Rightarrow> pystr \<Rightarrow> nat" where
  "py_count c s = length (filter (\<lambda>x. x = c) s)"

fun py_rfind_from :: "nat \<Rightarrow> pystr \<Rightarrow> int \<Rightarrow> int \<Rightarrow> int" where
  "py_rfind_from c [] i found = found"
| "py_rfind_from c (x # xs) i found = py_rfind_from c xs (i + 1) (if x = c then i else found)"

definition py_rfind :: "nat \<Rightarrow> pystr \<Rightarrow> int" where
  "py_rfind c s = py_rfind_from c s 0 (- 1)"

text \<open>\<open>sub in s\<close>: the substring test.\<close>

fun is_prefix :: "pystr \<Rightarrow> pystr \<Rightarrow> bool" where
  "is_prefix [] ys = True"
| "is_prefix (x # xs) [] = False"
| "is_prefix (x # xs) (y # ys) = (x = y \<and> is_prefix xs ys)"

fun py_in :: "pystr \<Rightarrow> pystr \<Rightarrow> bool" where
  "py_in sub [] = (sub = [])"
| "py_in sub (y # ys) = (is_prefix sub (y # ys) \<or> py_in sub ys)"

subsection \<open>The library tables\<close>

text \<open>
  \<open>unicodedata.normalize\<close>, \<open>unicodedata.combining\<close>, \<open>str.lower\<close>, \<open>str.upper\<close>,
  the reading of decimal digits and the printing of floats read tables that are not
  part of the repository. They are a parameter of the model: for each code point its
  full compatibility decomposition (the code point itself when it has none), its
  canonical combining class, its lower-case and upper-case mappings and its value as
  a decimal digit (\<open>None\<close> when it is not one, as for every character outside the
  category Nd), and for each float its \<open>repr\<close>. Case mapping is taken code point by
  code point (the one contextual rule of Python, the final sigma, is not modelled).
\<close>

record pylib =
  decomposition :: "nat \<Rightarrow> pystr"
  combining :: "nat \<Rightarrow> nat"
  lower_of :: "nat \<Rightarrow> pystr"
  upper_of :: "nat \<Rightarrow> pystr"
  decimal :: "nat \<Rightarrow> nat option"
  repr_float :: "pyfloat \<Rightarrow> pystr"

text \<open>
  NFKD: every code point is replaced by its decomposition, then each run of marks
  (combining class not 0) is put in the order of the classes, marks of equal class
  keeping their order.
\<close>

fun place_mark :: "(nat \<Rightarrow> nat) \<Rightarrow> nat \<Rightarrow> pystr \<Rightarrow> pystr" where
  "place_mark cc c [] = [c]"
| "place_mark cc c (d # t) =
     (if cc c \<noteq> 0 \<and> cc d \<noteq> 0 \<and> cc d < cc c then d # place_mark cc c t else c # d # t)"

fun canonical_order :: "(nat \<Rightarrow> nat) \<Rightarrow> pystr \<Rightarrow> pystr" where
  "canonical_order cc [] = []"
| "canonical_order cc (c # s) = place_mark cc c (canonical_order cc s)"

definition nfkd :: "pylib \<Rightarrow> pystr \<Rightarrow> pystr" where
  "nfkd L s = canonical_order (combining L) (concat (map (decomposition L) s))"

definition py_lower :: "pylib \<Rightarrow> pystr \<Rightarrow> pystr" where
  "py_lower L s = concat (map (lower_of L) s)"

definition py_upper :: "pylib \<Rightarrow> pystr \<Rightarrow> pystr" where
  "py_upper L s = concat (map (upper_of L) s)"

text \<open>
  The value of a code point as a decimal digit, which is what \<open>\<bslash>d\<close> of a regular
  expression matches and what \<open>int\<close> and \<open>float\<close> read: an ASCII digit, or a digit of
  another script by the table.
\<close>

definition is_digit :: "nat \<Rightarrow> bool" where
  "is_digit c \<longleftrightarrow> 48 \<le> c \<and> c \<le> 57"

definition digit_value :: "pylib \<Rightarrow> nat \<Rightarrow> nat option" where
  "digit_value L c =
     (if is_digit c then Some (c - 48) else if c < 127 then None else decimal L c)"

subsection \<open>Rounding to a float\<close>

text \<open>
  The conversions of Python to a float are correctly rounded: the result is the
  binary64 number nearest to the exact value, a tie going to the one with an even
  significand. For a positive rational \<open>a\<close> with \<open>2 ^ e \<le> a < 2 ^ (e + 1)\<close> the floats
  around \<open>a\<close> are the multiples of \<open>2 ^ (e - 52)\<close>, and of \<open>2 ^ - 1074\<close> below the
  smallest normal number \<open>2 ^ - 1022\<close>. \<open>round_positive\<close> is \<open>None\<close> when the rounded
  value would be \<open>2 ^ 1024\<close> or more, which no float is.
\<close>

definition round_half_even :: "rat \<Rightarrow> int" where
  "round_half_even x =
     (let f = \<lfloor>x\<rfloor>; r = x - of_int f in
      if r < 1 / 2 then f else if r > 1 / 2 then f + 1 else if even f then f else f + 1)"

definition pow2 :: "int \<Rightarrow> rat" where
  "pow2 k = (if 0 \<le> k then of_int (2 ^ nat k) else 1 / of_int (2 ^ nat (- k)))"

text \<open>The number of binary digits of a natural number (\<open>int.bit_length\<close>).\<close>

fun bit_length :: "nat \<Rightarrow> nat" where
  "bit_length n = (if n = 0 then 0 else Suc (bit_length (n div 2)))"

declare bit_length.simps [simp del]

text \<open>The \<open>e\<close> with \<open>2 ^ e \<le> a < 2 ^ (e + 1)\<close>, for \<open>a > 0\<close>.\<close>

definition floor_log2 :: "rat \<Rightarrow> int" where
  "floor_log2 a =
     (if 1 \<le> a then int (bit_length (nat \<lfloor>a\<rfloor>)) - 1
      else - int (bit_length (nat (\<lceil>1 / a\<rceil> - 1))))"

definition round_positive :: "rat \<Rightarrow> rat option" where
  "round_positive a =
     (let e = max (floor_log2 a) (- 1022) in
      if 1024 \<le> e then None
      else
        let quantum = pow2 (e - 52);
            n = round_half_even (a / quantum)
        in if e = 1023 \<and> n = 2 ^ 53 then None else Some (of_int n * quantum))"

text \<open>
  The float of a sign and a magnitude, as \<open>float\<close> gives it for a text: a magnitude
  that is too large becomes an infinity, one that is too small a zero.
\<close>

definition float_of_rat :: "bool \<Rightarrow> rat \<Rightarrow> pyfloat" where
  "float_of_rat negative a =
     (if a = 0 then (if negative then NegZero else Finite 0)
      else
        case round_positive a of
          None \<Rightarrow> (if negative then NegInf else PosInf)
        | Some r \<Rightarrow>
            if r = 0 then (if negative then NegZero else Finite 0)
            else Finite (if negative then - r else r))"

text \<open>\<open>float(i)\<close> for an \<open>int\<close>: \<open>OverflowError\<close> when the integer is too large.\<close>

definition float_of_int :: "int \<Rightarrow> pyexc + pyfloat" where
  "float_of_int i =
     (if i = 0 then Inr (Finite 0)
      else
        case round_positive (of_int \<bar>i\<bar>) of
          None \<Rightarrow> Inl OverflowError
        | Some r \<Rightarrow> Inr (Finite (if i < 0 then - r else r)))"

text \<open>The float that the literal \<open>1e-9\<close> denotes.\<close>

definition epsilon :: pyfloat where
  "epsilon = float_of_rat False (1 / 10 ^ 9)"

subsection \<open>\<open>float(text)\<close>\<close>

text \<open>
  \<open>float\<close> on a string. Every code point from 127 on is first made ASCII: a blank
  becomes a space, a decimal digit of another script the ASCII digit of its value, and
  anything else a question mark, which no number contains. The ASCII blanks around
  the text are dropped. What remains is an optional sign and then either \<open>inf\<close>,
  \<open>infinity\<close> or \<open>nan\<close> in any case, or a decimal number with an optional point
  (\<open>12\<close>, \<open>12.\<close>, \<open>.5\<close>, \<open>12.5\<close>) and an optional exponent, whose digits may be grouped by
  single underscores. \<open>None\<close> stands for \<open>ValueError\<close>.
\<close>

definition to_ascii :: "pylib \<Rightarrow> nat \<Rightarrow> nat" where
  "to_ascii L c =
     (if c < 127 then c
      else if is_space c then 32
      else case decimal L c of Some d \<Rightarrow> 48 + d | None \<Rightarrow> 63)"

definition is_ascii_space :: "nat \<Rightarrow> bool" where
  "is_ascii_space c \<longleftrightarrow> (9 \<le> c \<and> c \<le> 13) \<or> c = 32"

definition ascii_strip :: "pystr \<Rightarrow> pystr" where
  "ascii_strip s = rev (dropWhile is_ascii_space (rev (dropWhile is_ascii_space s)))"

definition ascii_lower :: "pystr \<Rightarrow> pystr" where
  "ascii_lower s = map (\<lambda>c. if 65 \<le> c \<and> c \<le> 90 then c + 32 else c) s"

fun digitpart_tail :: "pystr \<Rightarrow> bool" where
  "digitpart_tail [] = True"
| "digitpart_tail [c] = is_digit c"
| "digitpart_tail (c # d # r) =
     (if c = 95 then is_digit d \<and> digitpart_tail (d # r)
      else is_digit c \<and> digitpart_tail (d # r))"

definition is_digitpart :: "pystr \<Rightarrow> bool" where
  "is_digitpart s \<longleftrightarrow> (case s of [] \<Rightarrow> False | c # r \<Rightarrow> is_digit c \<and> digitpart_tail r)"

definition digits_value :: "pystr \<Rightarrow> int" where
  "digits_value s = foldl (\<lambda>acc c. 10 * acc + (int c - 48)) 0 (filter is_digit s)"

definition split_sign :: "pystr \<Rightarrow> bool \<times> pystr" where
  "split_sign s = (case s of [] \<Rightarrow> (False, [])
     | c # r \<Rightarrow> if c = 45 then (True, r) else if c = 43 then (False, r) else (False, c # r))"

definition parse_mantissa :: "pystr \<Rightarrow> rat option" where
  "parse_mantissa m =
     (let ip = takeWhile (\<lambda>c. c \<noteq> 46) m; rest = dropWhile (\<lambda>c. c \<noteq> 46) m in
      case rest of
        [] \<Rightarrow> if is_digitpart ip then Some (of_int (digits_value ip)) else None
      | _ # fp \<Rightarrow>
          if (ip = [] \<or> is_digitpart ip) \<and> (fp = [] \<or> is_digitpart fp) \<and> \<not> (ip = [] \<and> fp = [])
          then Some (of_int (digits_value ip)
                     + of_int (digits_value fp) / 10 ^ length (filter is_digit fp))
          else None)"

definition parse_exponent :: "pystr \<Rightarrow> int option" where
  "parse_exponent e =
     (case split_sign e of (neg, ds) \<Rightarrow>
        if is_digitpart ds
        then Some (if neg then - digits_value ds else digits_value ds)
        else None)"

definition py_float :: "pylib \<Rightarrow> pystr \<Rightarrow> pyfloat option" where
  "py_float L text =
     (case split_sign (ascii_strip (map (to_ascii L) text)) of (neg, body) \<Rightarrow>
        if ascii_lower body = lit ''inf'' \<or> ascii_lower body = lit ''infinity''
        then Some (if neg then NegInf else PosInf)
        else if ascii_lower body = lit ''nan'' then Some NaN
        else
          let m = takeWhile (\<lambda>c. c \<noteq> 101 \<and> c \<noteq> 69) body;
              rest = dropWhile (\<lambda>c. c \<noteq> 101 \<and> c \<noteq> 69) body;
              ex = (case rest of [] \<Rightarrow> Some 0 | _ # e \<Rightarrow> parse_exponent e)
          in case (parse_mantissa m, ex) of
               (Some v, Some k) \<Rightarrow>
                 Some (float_of_rat neg (v * (if k < 0 then 1 / 10 ^ nat (- k) else 10 ^ nat k)))
             | _ \<Rightarrow> None)"

text \<open>
  The ASCII characters that a text accepted by \<open>float\<close> is made of: digits, blanks,
  signs, the point, the underscore, the exponent mark and the letters of \<open>inf\<close>,
  \<open>infinity\<close> and \<open>nan\<close>.
\<close>

definition float_alphabet :: "nat \<Rightarrow> bool" where
  "float_alphabet a \<longleftrightarrow> is_digit a \<or> is_ascii_space a \<or> a \<in> set (lit ''+-._eEinfatyINFATY'')"

subsection \<open>Dictionaries\<close>

text \<open>
  A Python dictionary keeps the order in which its keys were first inserted; assigning
  to a key already present replaces its value in place.
\<close>

fun dict_set :: "('k \<times> 'v) list \<Rightarrow> 'k \<Rightarrow> 'v \<Rightarrow> ('k \<times> 'v) list" where
  "dict_set [] k v = [(k, v)]"
| "dict_set ((k', v') # d) k v = (if k' = k then (k, v) # d else (k', v') # dict_set d k v)"

definition dict_get :: "('k \<times> 'v) list \<Rightarrow> 'k \<Rightarrow> 'v option" where
  "dict_get d k = map_of d k"

subsection \<open>The calendar\<close>

text \<open>
  The civil calendar: the ordinal of a year, month and day, and back. Both are the
  usual era-based computations on the proleptic Gregorian calendar, shifted so that
  ordinal 1 is 0001-01-01 (ordinal 719163 is 1970-01-01).
\<close>

definition ymd_to_ordinal :: "int \<Rightarrow> int \<Rightarrow> int \<Rightarrow> int" where
  "ymd_to_ordinal y0 m d =
     (let y = (if m \<le> 2 then y0 - 1 else y0);
          era = y div 400;
          yoe = y mod 400;
          doy = (153 * (if m > 2 then m - 3 else m + 9) + 2) div 5 + d - 1;
          doe = yoe * 365 + yoe div 4 - yoe div 100 + doy
      in era * 146097 + doe - 719468 + 719163)"

definition ordinal_to_ymd :: "int \<Rightarrow> int \<times> int \<times> int" where
  "ordinal_to_ymd n =
     (let z = n - 719163 + 719468;
          era = z div 146097;
          doe = z mod 146097;
          yoe = (doe - doe div 1460 + doe div 36524 - doe div 146096) div 365;
          doy = doe - (365 * yoe + yoe div 4 - yoe div 100);
          mp = (5 * doy + 2) div 153;
          d = doy - (153 * mp + 2) div 5 + 1;
          m = (if mp < 10 then mp + 3 else mp - 9);
          y = yoe + era * 400
      in (if m \<le> 2 then y + 1 else y, m, d))"

subsection \<open>\<open>str(value)\<close> and truthiness\<close>

fun nat_digits :: "nat \<Rightarrow> pystr" where
  "nat_digits n = (if n < 10 then [48 + n] else nat_digits (n div 10) @ [48 + n mod 10])"

declare nat_digits.simps [simp del]

definition str_int :: "int \<Rightarrow> pystr" where
  "str_int i = (if i < 0 then 45 # nat_digits (nat (- i)) else nat_digits (nat i))"

definition zero_pad :: "nat \<Rightarrow> int \<Rightarrow> pystr" where
  "zero_pad w i = (let ds = nat_digits (nat i) in replicate (w - length ds) 48 @ ds)"

definition str_date :: "int \<Rightarrow> pystr" where
  "str_date n =
     (case ordinal_to_ymd n of (y, m, d) \<Rightarrow>
        zero_pad 4 y @ lit ''-'' @ zero_pad 2 m @ lit ''-'' @ zero_pad 2 d)"

definition str_datetime :: "datetime \<Rightarrow> pystr" where
  "str_datetime dt =
     (let secs = dt_micro dt div 1000000; frac = dt_micro dt mod 1000000 in
      str_date (dt_ordinal dt) @ lit '' '' @ zero_pad 2 (secs div 3600) @ lit '':''
      @ zero_pad 2 (secs mod 3600 div 60) @ lit '':'' @ zero_pad 2 (secs mod 60)
      @ (if frac = 0 then [] else lit ''.'' @ zero_pad 6 frac))"

definition py_str :: "pylib \<Rightarrow> cell \<Rightarrow> pystr" where
  "py_str L v =
     (case v of
        CNone \<Rightarrow> lit ''None''
      | CBool b \<Rightarrow> (if b then lit ''True'' else lit ''False'')
      | CInt i \<Rightarrow> str_int i
      | CFloat x \<Rightarrow> repr_float L x
      | CStr s \<Rightarrow> s
      | CDateTime d \<Rightarrow> str_datetime d
      | CDate n \<Rightarrow> str_date n)"

text \<open>Python truthiness of a cell value, as used by \<open>x or ''\<close> and \<open>if x\<close>.\<close>

definition truthy :: "cell \<Rightarrow> bool" where
  "truthy v =
     (case v of CNone \<Rightarrow> False | CBool b \<Rightarrow> b | CInt i \<Rightarrow> i \<noteq> 0
      | CFloat x \<Rightarrow> x \<noteq> Finite 0 \<and> x \<noteq> NegZero
      | CStr s \<Rightarrow> s \<noteq> [] | CDateTime d \<Rightarrow> True | CDate d \<Rightarrow> True)"

text \<open>\<open>value in (None, '')\<close>.\<close>

definition is_blank :: "cell \<Rightarrow> bool" where
  "is_blank v \<longleftrightarrow> v = CNone \<or> v = CStr []"

text \<open>
  \<open>isinstance(value, (int, float))\<close>, which holds for booleans too; \<open>float(value)\<close>
  for such a value, 1 for \<open>True\<close>; and \<open>value > 0\<close> for such a value.
\<close>

definition is_number :: "cell \<Rightarrow> bool" where
  "is_number v = (case v of CBool b \<Rightarrow> True | CInt i \<Rightarrow> True | CFloat x \<Rightarrow> True | _ \<Rightarrow> False)"

definition float_of_number :: "cell \<Rightarrow> pyexc + pyfloat" where
  "float_of_number v =
     (case v of
        CBool b \<Rightarrow> Inr (Finite (if b then 1 else 0))
      | CInt i \<Rightarrow> float_of_int i
      | CFloat x \<Rightarrow> Inr x
      | _ \<Rightarrow> Inr (Finite 0))"

definition number_above_zero :: "cell \<Rightarrow> bool" where
  "number_above_zero v =
     (case v of CBool b \<Rightarrow> b | CInt i \<Rightarrow> 0 < i | CFloat x \<Rightarrow> float_gt x (Finite 0) | _ \<Rightarrow> False)"

section \<open>Text normalisation (\<open>_normalize_text\<close>)\<close>

text \<open>case1.py, inherited by case 2: accents dropped, lower case, trimmed.\<close>

definition normalize_text :: "pylib \<Rightarrow> cell \<Rightarrow> pystr" where
  "normalize_text L text =
     (case text of
        CStr s \<Rightarrow>
          (let normalized = nfkd L s;
               normalized = filter (\<lambda>ch. combining L ch = 0) normalized
           in py_strip (py_lower L normalized))
      | _ \<Rightarrow> [])"

text \<open>case7.py: accents dropped, lower case, every blank removed.\<close>

definition normalize_text7 :: "pylib \<Rightarrow> cell \<Rightarrow> pystr" where
  "normalize_text7 L text =
     (case text of
        CStr s \<Rightarrow>
          (let normalized = nfkd L s;
               without_accents = filter (\<lambda>c. combining L c = 0) normalized
           in py_replace 32 [] (py_lower L without_accents))
      | _ \<Rightarrow> [])"

text \<open>
  What the idempotence of the normalisation needs of the tables, and what the Unicode
  tables provide: a decomposition is full (its code points have no decomposition of their
  own), and the lower case of a base character without decomposition is again made of
  such characters, each its own lower case.
\<close>

definition stable_point :: "pylib \<Rightarrow> nat \<Rightarrow> bool" where
  "stable_point L c \<longleftrightarrow> decomposition L c = [c] \<and> combining L c = 0 \<and> lower_of L c = [c]"

definition tables_closed :: "pylib \<Rightarrow> bool" where
  "tables_closed L \<longleftrightarrow>
     (\<forall>c. \<forall>d\<in>set (decomposition L c). decomposition L d = [d])
     \<and> (\<forall>c. decomposition L c = [c] \<and> combining L c = 0 \<longrightarrow>
            (\<forall>l\<in>set (lower_of L c). stable_point L l))"

section \<open>Decimal parsing (case1.py, \<open>_parse_decimal\<close>)\<close>

text \<open>
  A number is converted by \<open>float\<close>, outside every \<open>try\<close>: the \<open>OverflowError\<close> of an
  integer that is too large leaves the function. The text that reaches \<open>float\<close> is
  made of ASCII digits, commas, points and minus signs only; its \<open>ValueError\<close> is
  answered with \<open>None\<close>.
\<close>

definition parse_decimal :: "pylib \<Rightarrow> cell \<Rightarrow> pyexc + pyfloat option" where
  "parse_decimal L v =
     (case v of
        CNone \<Rightarrow> Inr None
      | CStr s \<Rightarrow>
          (let text = py_strip s in
           if text = [] \<or> text = lit ''-'' \<or> text = lit ''--'' then Inr None
           else
             let text = py_replace 32 [] (py_replace 160 [] text);
                 text = filter (\<lambda>c. is_digit c \<or> c = 44 \<or> c = 46 \<or> c = 45) text
             in if text = [] then Inr None
                else
                  let text =
                    (if py_count 44 text > 1 \<and> 46 \<notin> set text then
                       let last_comma = nat (py_rfind 44 text) in
                       py_replace 44 [] (take last_comma text) @ lit ''.'' @ drop (last_comma + 1) text
                     else if py_count 46 text > 1 \<and> 44 \<notin> set text then
                       let last_dot = nat (py_rfind 46 text) in
                       py_replace 46 [] (take last_dot text) @ lit ''.'' @ drop (last_dot + 1) text
                     else if py_count 44 text = 1 \<and> 46 \<notin> set text then
                       py_replace 44 (lit ''.'') text
                     else if py_count 46 text = 1 \<and> py_count 44 text = 1 then
                       (if py_rfind 46 text < py_rfind 44 text
                        then py_replace 44 (lit ''.'') (py_replace 46 [] text)
                        else py_replace 44 [] text)
                     else text)
                  in Inr (py_float L text))
      | _ \<Rightarrow>
          if is_number v
          then (case float_of_number v of Inl e \<Rightarrow> Inl e | Inr x \<Rightarrow> Inr (Some x))
          else Inr None)"

section \<open>Keyword codification and code replacement (case7.py)\<close>

text \<open>
  \<open>_to_number\<close>: the amount of a cell. \<open>number_text\<close> is the rewriting of the
  separators that the stripped text goes through before \<open>float\<close> is called on it; the
  \<open>ValueError\<close> of \<open>float\<close> is answered with 0. A number is converted by \<open>float\<close>
  outside every \<open>try\<close>, so the \<open>OverflowError\<close> of an integer that is too large leaves
  the function.
\<close>

definition number_text :: "pystr \<Rightarrow> pystr" where
  "number_text cleaned0 =
     (let cleaned = py_replace 32 [] cleaned0 in
      if 44 \<in> set cleaned \<and> 46 \<in> set cleaned then
        (if py_rfind 44 cleaned > py_rfind 46 cleaned
         then py_replace 44 (lit ''.'') (py_replace 46 [] cleaned)
         else py_replace 44 [] cleaned)
      else if 44 \<in> set cleaned then py_replace 44 (lit ''.'') cleaned
      else py_replace 44 [] cleaned)"

definition to_number :: "pylib \<Rightarrow> cell \<Rightarrow> pyexc + pyfloat" where
  "to_number L v =
     (case v of
        CNone \<Rightarrow> Inr (Finite 0)
      | CStr s \<Rightarrow>
          (let cleaned = py_strip s in
           if cleaned = [] then Inr (Finite 0)
           else (case py_float L (number_text cleaned) of Some x \<Rightarrow> Inr x | None \<Rightarrow> Inr (Finite 0)))
      | _ \<Rightarrow> if is_number v then float_of_number v else Inr (Finite 0))"

text \<open>
  A cell that holds no amount: \<open>None\<close>, a blank string, or a string that \<open>float\<close>
  rejects once its separators are rewritten.
\<close>

definition no_amount :: "pylib \<Rightarrow> cell \<Rightarrow> bool" where
  "no_amount L v =
     (case v of
        CNone \<Rightarrow> True
      | CStr s \<Rightarrow> py_strip s = [] \<or> py_float L (number_text (py_strip s)) = None
      | _ \<Rightarrow> False)"

text \<open>
  The code points that can occur in a text with an amount: blanks, decimal digits,
  signs, separators, the underscore, the exponent mark and the letters of \<open>inf\<close>,
  \<open>infinity\<close> and \<open>nan\<close>. A text with any other character (a slash, most letters)
  holds no amount.
\<close>

definition number_char :: "pylib \<Rightarrow> nat \<Rightarrow> bool" where
  "number_char L c \<longleftrightarrow>
     is_space c \<or> digit_value L c \<noteq> None \<or> c \<in> set (lit ''+-.,_eEinfatyINFATY'')"

text \<open>
  A row of \<open>_extract_table_rows\<close> is a dictionary from the headers to cell values.
  \<open>row_get\<close> is \<open>row_data.get(key)\<close>.
\<close>

datatype field = Fecha | Documento | Descripcion | Debitos | Creditos | Saldo | Codigo | Revisar

type_synonym row7 = "field \<Rightarrow> cell option"

definition row_get :: "row7 \<Rightarrow> field \<Rightarrow> cell" where
  "row_get row k = (case row k of Some v \<Rightarrow> v | None \<Rightarrow> CNone)"

text \<open>
  A loop whose body changes one row at a time: the rows as the loop leaves them, or the
  exception that ends it. (\<open>_redesign_excel_attachment\<close> catches the exception and
  gives up the file, rows included.)
\<close>

fun for_each_row :: "('a \<Rightarrow> pyexc + 'a) \<Rightarrow> 'a list \<Rightarrow> pyexc + 'a list" where
  "for_each_row body [] = Inr []"
| "for_each_row body (row # rows) =
     (case body row of
        Inl e \<Rightarrow> Inl e
      | Inr row' \<Rightarrow>
          (case for_each_row body rows of Inl e \<Rightarrow> Inl e | Inr rows' \<Rightarrow> Inr (row' # rows')))"

text \<open>
  The rules as \<open>_get_codification_rules\<close> prepares them: for debits and for credits a
  list of pairs of a normalised search text and a code.
\<close>

record codification_rules =
  debit_rules :: "(pystr \<times> pystr) list"
  credit_rules :: "(pystr \<times> pystr) list"

text \<open>\<open>_match_codification\<close>: the code of the first rule whose text occurs in the description.\<close>

fun match_codification :: "pystr \<Rightarrow> (pystr \<times> pystr) list \<Rightarrow> pystr" where
  "match_codification normalized_description [] = []"
| "match_codification normalized_description ((search_text, code) # rules) =
     (if search_text \<noteq> [] \<and> code \<noteq> [] \<and> py_in search_text normalized_description then code
      else match_codification normalized_description rules)"

text \<open>\<open>_determine_codification\<close>: the code to assign, empty when there is none.\<close>

definition determine_codification :: "pylib \<Rightarrow> row7 \<Rightarrow> codification_rules \<Rightarrow> pyexc + pystr" where
  "determine_codification L row_data rules =
     (case row_get row_data Descripcion of
        CStr description \<Rightarrow>
          (let normalized_description = normalize_text7 L (CStr description) in
           if normalized_description = [] then Inr []
           else
             case to_number L (row_get row_data Creditos) of
               Inl e \<Rightarrow> Inl e
             | Inr credit_amount \<Rightarrow>
                 (case to_number L (row_get row_data Debitos) of
                    Inl e \<Rightarrow> Inl e
                  | Inr debit_amount \<Rightarrow>
                      let code = (if float_gt credit_amount (Finite 0)
                                  then match_codification normalized_description (credit_rules rules)
                                  else [])
                      in if code \<noteq> [] then Inr code
                         else
                           let code = (if float_gt debit_amount (Finite 0)
                                       then match_codification normalized_description (debit_rules rules)
                                       else [])
                           in if code \<noteq> [] then Inr code else Inr []))
      | _ \<Rightarrow> Inr [])"

text \<open>
  The rule as the specification words it, with "else if": the debit rules are tried
  only for a record whose credit is not above 0. It is here to be compared with
  \<open>determine_codification\<close>.
\<close>

definition determine_codification_else_if :: "pylib \<Rightarrow> row7 \<Rightarrow> codification_rules \<Rightarrow> pyexc + pystr" where
  "determine_codification_else_if L row_data rules =
     (case row_get row_data Descripcion of
        CStr description \<Rightarrow>
          (let normalized_description = normalize_text7 L (CStr description) in
           if normalized_description = [] then Inr []
           else
             case to_number L (row_get row_data Creditos) of
               Inl e \<Rightarrow> Inl e
             | Inr credit_amount \<Rightarrow>
                 (case to_number L (row_get row_data Debitos) of
                    Inl e \<Rightarrow> Inl e
                  | Inr debit_amount \<Rightarrow>
                      if float_gt credit_amount (Finite 0)
                      then Inr (match_codification normalized_description (credit_rules rules))
                      else if float_gt debit_amount (Finite 0)
                      then Inr (match_codification normalized_description (debit_rules rules))
                      else Inr []))
      | _ \<Rightarrow> Inr [])"

text \<open>
  The body of the loop of \<open>_assign_codes_by_description\<close>: when no code is found the
  row keeps its code, written as the empty string when it had none or a false one
  (\<open>row_data.get('C\'odigo', '') or ''\<close>).
\<close>

definition or_empty :: "cell \<Rightarrow> cell" where
  "or_empty v = (if truthy v then v else CStr [])"

definition assign_code :: "pylib \<Rightarrow> codification_rules \<Rightarrow> row7 \<Rightarrow> pyexc + row7" where
  "assign_code L rules row_data =
     (case determine_codification L row_data rules of
        Inl e \<Rightarrow> Inl e
      | Inr code \<Rightarrow>
          if code \<noteq> [] then Inr (row_data(Codigo \<mapsto> CStr code))
          else Inr (row_data(Codigo \<mapsto> or_empty (case row_data Codigo of Some v \<Rightarrow> v | None \<Rightarrow> CStr []))))"

definition assign_codes_by_description ::
  "pylib \<Rightarrow> codification_rules \<Rightarrow> row7 list \<Rightarrow> pyexc + row7 list" where
  "assign_codes_by_description L rules data_rows = for_each_row (assign_code L rules) data_rows"

text \<open>
  The body of the loop of \<open>_update_codes_for_positive_debits\<close> of case 7 for one row;
  \<open>_update_codes_for_non_negative_credits\<close> has the same body with the two amounts
  exchanged. The replacement map is read from the configuration.
\<close>

type_synonym code_map = "(pystr \<times> pystr) list"

definition update_code_row7 :: "pylib \<Rightarrow> code_map \<Rightarrow> field \<Rightarrow> field \<Rightarrow> row7 \<Rightarrow> pyexc + row7" where
  "update_code_row7 L replacement_map amount_key other_key row_data =
     (case to_number L (row_get row_data amount_key) of
        Inl e \<Rightarrow> Inl e
      | Inr amount \<Rightarrow>
          (case (if row_data other_key \<noteq> None then to_number L (row_get row_data other_key)
                 else Inr (Finite 0)) of
             Inl e \<Rightarrow> Inl e
           | Inr other_amount \<Rightarrow>
               if float_le amount epsilon then Inr row_data
               else if float_gt other_amount epsilon then Inr row_data
               else
                 let current_code = py_upper L (py_strip (py_str L (or_empty (row_get row_data Codigo)))) in
                 if current_code = [] then Inr row_data
                 else
                   case dict_get replacement_map current_code of
                     Some new_code \<Rightarrow>
                       if new_code \<noteq> [] \<and> current_code \<noteq> new_code
                       then Inr (row_data(Codigo \<mapsto> CStr new_code))
                       else Inr row_data
                   | None \<Rightarrow> Inr row_data))"

definition update_codes_for_positive_debits7 ::
  "pylib \<Rightarrow> code_map \<Rightarrow> row7 list \<Rightarrow> pyexc + row7 list" where
  "update_codes_for_positive_debits7 L replacement_map data_rows =
     (case data_rows of
        [] \<Rightarrow> Inr data_rows
      | first # _ \<Rightarrow>
          if first Codigo = None \<or> first Debitos = None then Inr data_rows
          else if replacement_map = [] then Inr data_rows
          else for_each_row (update_code_row7 L replacement_map Debitos Creditos) data_rows)"

definition update_codes_for_non_negative_credits7 ::
  "pylib \<Rightarrow> code_map \<Rightarrow> row7 list \<Rightarrow> pyexc + row7 list" where
  "update_codes_for_non_negative_credits7 L replacement_map data_rows =
     (case data_rows of
        [] \<Rightarrow> Inr data_rows
      | first # _ \<Rightarrow>
          if first Codigo = None \<or> first Creditos = None then Inr data_rows
          else if replacement_map = [] then Inr data_rows
          else for_each_row (update_code_row7 L replacement_map Creditos Debitos) data_rows)"

text \<open>The two passes in the order of \<open>_apply_code_replacement_rules\<close>.\<close>

definition sign_exclusive_remap7 ::
  "pylib \<Rightarrow> code_map \<Rightarrow> code_map \<Rightarrow> row7 list \<Rightarrow> pyexc + row7 list" where
  "sign_exclusive_remap7 L positive_debit_map non_negative_credit_map data_rows =
     (case update_codes_for_positive_debits7 L positive_debit_map data_rows of
        Inl e \<Rightarrow> Inl e
      | Inr rows \<Rightarrow> update_codes_for_non_negative_credits7 L non_negative_credit_map rows)"

text \<open>The codes of the rows that a pass returns.\<close>

definition codes_of :: "pyexc + row7 list \<Rightarrow> pyexc + cell list" where
  "codes_of result = map_sum id (map (\<lambda>row. row_get row Codigo)) result"

section \<open>A sample of the library tables\<close>

text \<open>
  The entries of the Unicode character database for the code points up to U+00FF
  (Basic Latin and Latin-1 Supplement): the compatibility decompositions, the
  combining classes of the marks they use, the case mappings and the decimal digits.
  Code points without an entry have no decomposition, class 0, no case mapping and no
  value as a digit. It is the
  library the examples are evaluated with.
\<close>

definition decomposition_table :: "(nat \<times> pystr) list" where
  "decomposition_table =
     [(160, [32]), (168, [32, 776]), (170, [97]), (175, [32, 772]), (178, [50]), (179, [51]),
      (180, [32, 769]), (181, [956]), (184, [32, 807]), (185, [49]), (186, [111]),
      (188, [49, 8260, 52]), (189, [49, 8260, 50]), (190, [51, 8260, 52]),
      (192, [65, 768]), (193, [65, 769]), (194, [65, 770]), (195, [65, 771]), (196, [65, 776]),
      (197, [65, 778]), (199, [67, 807]), (200, [69, 768]), (201, [69, 769]), (202, [69, 770]),
      (203, [69, 776]), (204, [73, 768]), (205, [73, 769]), (206, [73, 770]), (207, [73, 776]),
      (209, [78, 771]), (210, [79, 768]), (211, [79, 769]), (212, [79, 770]), (213, [79, 771]),
      (214, [79, 776]), (217, [85, 768]), (218, [85, 769]), (219, [85, 770]), (220, [85, 776]),
      (221, [89, 769]), (224, [97, 768]), (225, [97, 769]), (226, [97, 770]), (227, [97, 771]),
      (228, [97, 776]), (229, [97, 778]), (231, [99, 807]), (232, [101, 768]), (233, [101, 769]),
      (234, [101, 770]), (235, [101, 776]), (236, [105, 768]), (237, [105, 769]), (238, [105, 770]),
      (239, [105, 776]), (241, [110, 771]), (242, [111, 768]), (243, [111, 769]), (244, [111, 770]),
      (245, [111, 771]), (246, [111, 776]), (249, [117, 768]), (250, [117, 769]), (251, [117, 770]),
      (252, [117, 776]), (253, [121, 769]), (255, [121, 776])]"

definition combining_table :: "(nat \<times> nat) list" where
  "combining_table =
     [(768, 230), (769, 230), (770, 230), (771, 230), (772, 230), (776, 230), (778, 230), (807, 202)]"

definition sample_lower :: "nat \<Rightarrow> pystr" where
  "sample_lower c =
     (if (65 \<le> c \<and> c \<le> 90) \<or> (192 \<le> c \<and> c \<le> 222 \<and> c \<noteq> 215) then [c + 32] else [c])"

definition sample_upper :: "nat \<Rightarrow> pystr" where
  "sample_upper c =
     (if (97 \<le> c \<and> c \<le> 122) \<or> (224 \<le> c \<and> c \<le> 254 \<and> c \<noteq> 247) then [c - 32]
      else if c = 181 then [924] else if c = 223 then [83, 83] else if c = 255 then [376]
      else [c])"

text \<open>
  The \<open>repr\<close> of a float: for a finite float of magnitude below \<open>10 ^ 16\<close> whose decimal
  expansion is short, which is all the examples use, the integer part, a point and the
  decimals (at least one).
\<close>

fun fraction_digits :: "nat \<Rightarrow> rat \<Rightarrow> pystr" where
  "fraction_digits 0 x = []"
| "fraction_digits (Suc n) x =
     (let d = \<lfloor>x * 10\<rfloor>; r = x * 10 - of_int d in
      (48 + nat d) # (if r = 0 then [] else fraction_digits n r))"

definition sample_repr_float :: "pyfloat \<Rightarrow> pystr" where
  "sample_repr_float x =
     (case x of
        NaN \<Rightarrow> lit ''nan''
      | PosInf \<Rightarrow> lit ''inf''
      | NegInf \<Rightarrow> lit ''-inf''
      | NegZero \<Rightarrow> lit ''-0.0''
      | Finite r \<Rightarrow>
          (let a = \<bar>r\<bar>; i = \<lfloor>a\<rfloor> in
           (if r < 0 then [45] else []) @ nat_digits (nat i) @ [46] @ fraction_digits 17 (a - of_int i)))"

text \<open>Up to U+00FF the decimal digits are the ASCII digits.\<close>

definition sample_decimal :: "nat \<Rightarrow> nat option" where
  "sample_decimal c = (if 48 \<le> c \<and> c \<le> 57 then Some (c - 48) else None)"

definition latin1 :: pylib where
  "latin1 =
     \<lparr> decomposition = (\<lambda>c. case map_of decomposition_table c of Some d \<Rightarrow> d | None \<Rightarrow> [c]),
       combining = (\<lambda>c. case map_of combining_table c of Some k \<Rightarrow> k | None \<Rightarrow> 0),
       lower_of = sample_lower,
       upper_of = sample_upper,
       decimal = sample_decimal,
       repr_float = sample_repr_float \<rparr>"

section \<open>Sample inputs\<close>

text \<open>A row of case 7 with its description, debit, credit and code cells, and a rule set.\<close>

definition sample_row :: "cell \<Rightarrow> cell \<Rightarrow> cell \<Rightarrow> cell \<Rightarrow> row7" where
  "sample_row description debit credit code =
     [Fecha \<mapsto> CStr (lit ''01/10/2025''), Documento \<mapsto> CInt 1001, Descripcion \<mapsto> description,
      Debitos \<mapsto> debit, Creditos \<mapsto> credit, Saldo \<mapsto> CNone, Codigo \<mapsto> code, Revisar \<mapsto> CStr []]"

definition sample_rules :: codification_rules where
  "sample_rules = \<lparr> debit_rules = [(lit ''pago'', lit ''DB1''), (lit ''cheque'', lit ''DB9'')],
                     credit_rules = [(lit ''tarjeta'', lit ''CR1''), (lit ''pago'', lit ''CR2'')] \<rparr>"

text \<open>Two replacement maps, for the rows with a debit and for the rows with a credit.\<close>

definition sample_debit_map :: code_map where
  "sample_debit_map = [(lit ''WD'', lit ''T/D'')]"

definition sample_credit_map :: code_map where
  "sample_credit_map = [(lit ''WD'', lit ''T/C'')]"

section \<open>Properties of the text normalisation\<close>

subsection \<open>Trimming and canonical ordering\<close>

lemma py_strip_subset: "set (py_strip s) \<subseteq> set s"
proof -
  have "set (py_strip s) = set (dropWhile is_space (rev (dropWhile is_space s)))"
    by (simp add: py_strip_def)
  also have "\<dots> \<subseteq> set (rev (dropWhile is_space s))" by (rule set_dropWhileD[THEN subsetI]) 
  also have "\<dots> \<subseteq> set s" using set_dropWhileD by fastforce
  finally show ?thesis .
qed

lemma py_strip_prefix: "\<exists>c. dropWhile is_space s = py_strip s @ c"
proof -
  let ?a = "dropWhile is_space s"
  have "rev ?a = takeWhile is_space (rev ?a) @ dropWhile is_space (rev ?a)" by simp
  then have "?a = rev (dropWhile is_space (rev ?a)) @ rev (takeWhile is_space (rev ?a))"
    by (metis rev_append rev_rev_ident)
  then show ?thesis unfolding py_strip_def by blast
qed

lemma py_strip_no_leading: "dropWhile is_space (py_strip s) = py_strip s"
proof (cases "py_strip s")
  case Nil then show ?thesis by simp
next
  case (Cons x xs)
  obtain c where c: "dropWhile is_space s = py_strip s @ c" using py_strip_prefix by blast
  then have "hd (dropWhile is_space s) = x" using Cons by simp
  moreover have "dropWhile is_space s \<noteq> []" using c Cons by simp
  ultimately have "\<not> is_space x" using hd_dropWhile by metis
  then show ?thesis using Cons by simp
qed

lemma py_strip_idem: "py_strip (py_strip s) = py_strip s"
proof -
  have "rev (py_strip s) = dropWhile is_space (rev (dropWhile is_space s))"
    by (simp add: py_strip_def)
  then have "dropWhile is_space (rev (py_strip s)) = rev (py_strip s)" by simp
  then show ?thesis
    by (metis py_strip_def py_strip_no_leading rev_rev_ident)
qed

lemma place_mark_starter: "cc c = 0 \<Longrightarrow> place_mark cc c t = c # t"
  by (cases t) simp_all

lemma filter_place_mark:
  "filter (\<lambda>x. cc x = 0) (place_mark cc c t) = filter (\<lambda>x. cc x = 0) (c # t)"
  by (induction t) auto

lemma filter_canonical_order:
  "filter (\<lambda>x. cc x = 0) (canonical_order cc s) = filter (\<lambda>x. cc x = 0) s"
  by (induction s) (simp_all add: filter_place_mark)

lemma canonical_order_starters:
  "\<forall>c\<in>set s. cc c = 0 \<Longrightarrow> canonical_order cc s = s"
  by (induction s) (simp_all add: place_mark_starter)

lemma concat_map_fixed: "\<forall>c\<in>set s. f c = [c] \<Longrightarrow> concat (map f s) = s"
  by (induction s) simp_all

lemma py_replace_delete: "py_replace c [] s = filter (\<lambda>x. x \<noteq> c) s"
  by (induction s) (simp_all add: py_replace_def)

subsection \<open>Normalised text is a fixed point\<close>

lemma folded_stable:
  assumes "tables_closed L"
  shows "\<forall>l\<in>set (py_lower L (filter (\<lambda>ch. combining L ch = 0) (nfkd L s))). stable_point L l"
proof
  fix l assume "l \<in> set (py_lower L (filter (\<lambda>ch. combining L ch = 0) (nfkd L s)))"
  then obtain c where c: "c \<in> set (filter (\<lambda>ch. combining L ch = 0) (nfkd L s))" and l: "l \<in> set (lower_of L c)"
    by (auto simp: py_lower_def)
  from c have "c \<in> set (filter (\<lambda>ch. combining L ch = 0) (concat (map (decomposition L) s)))"
    by (simp only: nfkd_def filter_canonical_order)
  then obtain b where "c \<in> set (decomposition L b)" and c0: "combining L c = 0" by auto
  with assms have "decomposition L c = [c]" by (auto simp: tables_closed_def)
  with assms c0 l show "stable_point L l" by (auto simp: tables_closed_def)
qed

lemma stable_text_fixed:
  assumes "\<forall>l\<in>set y. stable_point L l"
  shows "py_lower L (filter (\<lambda>ch. combining L ch = 0) (nfkd L y)) = y"
proof -
  have d: "concat (map (decomposition L) y) = y"
    using assms by (intro concat_map_fixed) (simp add: stable_point_def)
  have c: "canonical_order (combining L) y = y"
    using assms by (intro canonical_order_starters) (simp add: stable_point_def)
  have f: "filter (\<lambda>ch. combining L ch = 0) y = y"
    using assms by (simp add: stable_point_def)
  have l: "concat (map (lower_of L) y) = y"
    using assms by (intro concat_map_fixed) (simp add: stable_point_def)
  show ?thesis by (simp add: nfkd_def d c f py_lower_def l)
qed

lemma normalize_text_idem:
  assumes "tables_closed L"
  shows "normalize_text L (CStr (normalize_text L x)) = normalize_text L x"
proof (cases x)
  case (CStr s)
  let ?z = "py_lower L (filter (\<lambda>ch. combining L ch = 0) (nfkd L s))"
  have "\<forall>l\<in>set (py_strip ?z). stable_point L l"
    using folded_stable[OF assms, of s] py_strip_subset by blast
  then have "py_lower L (filter (\<lambda>ch. combining L ch = 0) (nfkd L (py_strip ?z))) = py_strip ?z"
    by (rule stable_text_fixed)
  then show ?thesis using CStr by (simp add: normalize_text_def py_strip_idem)
qed (simp_all add: normalize_text_def stable_text_fixed py_strip_def)

lemma normalize_text7_idem:
  assumes "tables_closed L"
  shows "normalize_text7 L (CStr (normalize_text7 L x)) = normalize_text7 L x"
proof (cases x)
  case (CStr s)
  let ?z = "py_lower L (filter (\<lambda>ch. combining L ch = 0) (nfkd L s))"
  have "\<forall>l\<in>set (filter (\<lambda>x. x \<noteq> 32) ?z). stable_point L l"
    using folded_stable[OF assms, of s] by simp
  then have "py_lower L (filter (\<lambda>ch. combining L ch = 0) (nfkd L (filter (\<lambda>x. x \<noteq> 32) ?z))) = filter (\<lambda>x. x \<noteq> 32) ?z"
    by (rule stable_text_fixed)
  then show ?thesis using CStr by (simp add: normalize_text7_def py_replace_delete)
qed (simp_all add: normalize_text7_def stable_text_fixed py_replace_delete)

section \<open>Properties of the decimal parser\<close>

text \<open>
  The amounts of the specification: both separators once each, the later one being the
  decimal separator; a non-breaking space inside the number; the placeholders. The
  result is the float nearest to 1234.56.
\<close>

lemma parse_decimal_examples:
  "parse_decimal L (CStr (lit ''1.234,56'')) = Inr (Some (float_of_rat False (123456 / 100)))"
  "parse_decimal L (CStr (lit ''1,234.56'')) = Inr (Some (float_of_rat False (123456 / 100)))"
  "parse_decimal L (CStr (lit ''1'' @ [160] @ lit ''234,56'')) = Inr (Some (float_of_rat False (123456 / 100)))"
  "parse_decimal L (CStr (lit ''-'')) = Inr None"
  "parse_decimal L (CStr (lit ''--'')) = Inr None"
  "parse_decimal L (CStr []) = Inr None"
  by code_simp+

text \<open>
  C5. \<open>_parse_decimal\<close> is to take, when both separators are present, the one that
  appears later in the string as the decimal separator. It does so only when each
  separator occurs exactly once: an amount with a repeated thousands separator and a
  decimal separator, such as 1.234.567,89 or 1,234,567.89, matches none of the four
  branches, reaches \<open>float\<close> with its separators and is answered with \<open>None\<close>.
\<close>

theorem parse_decimal_repeated_thousands_separator:
  "parse_decimal L (CStr (lit ''1.234.567,89'')) = Inr None
   \<and> parse_decimal L (CStr (lit ''1,234,567.89'')) = Inr None"
  by code_simp

subsection \<open>The sample tables are closed\<close>

lemma latin1_simps:
  "decomposition latin1 c = (case map_of decomposition_table c of Some d \<Rightarrow> d | None \<Rightarrow> [c])"
  "combining latin1 c = (case map_of combining_table c of Some k \<Rightarrow> k | None \<Rightarrow> 0)"
  "lower_of latin1 = sample_lower" "upper_of latin1 = sample_upper"
  by (simp_all add: latin1_def)

lemma decomposition_table_full:
  "list_all (\<lambda>(c, ds). list_all (\<lambda>d. map_of decomposition_table d = None) ds) decomposition_table"
  by code_simp

lemma latin1_upper_case_points:
  "list_all (\<lambda>c. decomposition latin1 c = [c] \<and> combining latin1 c = 0
                  \<longrightarrow> list_all (stable_point latin1) (lower_of latin1 c)) ([65..<91] @ [192..<223])"
  by code_simp

lemma latin1_tables_closed: "tables_closed latin1"
  unfolding tables_closed_def
proof (intro conjI allI ballI impI)
  fix c d assume d: "d \<in> set (decomposition latin1 c)"
  show "decomposition latin1 d = [d]"
  proof (cases "map_of decomposition_table c")
    case None
    with d show ?thesis by (simp add: latin1_simps)
  next
    case (Some ds)
    then have "(c, ds) \<in> set decomposition_table" by (rule map_of_SomeD)
    with decomposition_table_full have "list_all (\<lambda>d. map_of decomposition_table d = None) ds"
      by (auto simp: list_all_iff)
    with d Some show ?thesis by (auto simp: latin1_simps list_all_iff)
  qed
next
  fix c l assume c: "decomposition latin1 c = [c] \<and> combining latin1 c = 0"
    and l: "l \<in> set (lower_of latin1 c)"
  show "stable_point latin1 l"
  proof (cases "c \<in> set ([65..<91] @ [192..<223])")
    case True
    with latin1_upper_case_points c have "list_all (stable_point latin1) (lower_of latin1 c)"
      unfolding list_all_iff by blast
    with l show ?thesis by (simp add: list_all_iff)
  next
    case False
    then have "c \<notin> {65..<91} \<union> {192..<223}" unfolding set_append set_upt .
    then have "lower_of latin1 c = [c]" by (auto simp: latin1_simps sample_lower_def)
    with l c show ?thesis by (simp add: stable_point_def)
  qed
qed

subsection \<open>The normaliser\<close>

lemma normalize_text_not_str: "(\<forall>s. x \<noteq> CStr s) \<Longrightarrow> normalize_text L x = [] \<and> normalize_text7 L x = []"
  by (cases x) (simp_all add: normalize_text_def normalize_text7_def)

text \<open>
  C8. \<open>_normalize_text\<close> (of case 1, inherited by case 2, and of case 7) is idempotent:
  normalising a normalised text changes nothing, for every input and for all library
  tables that are closed in the sense of \<open>tables_closed\<close>, as the Unicode tables are.
  It is insensitive to case and accents: "D\'ebitos", "debitos" and " D\'EBITOS " have
  the same normal form (evaluated with the Latin-1 tables). For an input that is not a
  string it returns the empty string; being a total function, it never fails.
\<close>

theorem normalize_text_idempotent_insensitive_total:
  "(tables_closed L \<longrightarrow>
      normalize_text L (CStr (normalize_text L x)) = normalize_text L x
      \<and> normalize_text7 L (CStr (normalize_text7 L x)) = normalize_text7 L x)
   \<and> normalize_text latin1 (CStr ([68, 233] @ lit ''bitos'')) = normalize_text latin1 (CStr (lit ''debitos''))
   \<and> normalize_text latin1 (CStr (lit ''debitos'')) = normalize_text latin1 (CStr (lit '' D'' @ [201] @ lit ''BITOS ''))
   \<and> normalize_text7 latin1 (CStr ([68, 233] @ lit ''bitos'')) = normalize_text7 latin1 (CStr (lit ''debitos''))
   \<and> normalize_text7 latin1 (CStr (lit ''debitos'')) = normalize_text7 latin1 (CStr (lit '' D'' @ [201] @ lit ''BITOS ''))
   \<and> ((\<forall>s. x \<noteq> CStr s) \<longrightarrow> normalize_text L x = [] \<and> normalize_text7 L x = [])"
proof -
  have a: "tables_closed L \<longrightarrow>
      normalize_text L (CStr (normalize_text L x)) = normalize_text L x
      \<and> normalize_text7 L (CStr (normalize_text7 L x)) = normalize_text7 L x"
    by (simp add: normalize_text_idem normalize_text7_idem)
  have b: "normalize_text latin1 (CStr ([68, 233] @ lit ''bitos'')) = normalize_text latin1 (CStr (lit ''debitos''))"
    by code_simp
  have c: "normalize_text latin1 (CStr (lit ''debitos'')) = normalize_text latin1 (CStr (lit '' D'' @ [201] @ lit ''BITOS ''))"
    by code_simp
  have d: "normalize_text7 latin1 (CStr ([68, 233] @ lit ''bitos'')) = normalize_text7 latin1 (CStr (lit ''debitos''))"
    by code_simp
  have e: "normalize_text7 latin1 (CStr (lit ''debitos'')) = normalize_text7 latin1 (CStr (lit '' D'' @ [201] @ lit ''BITOS ''))"
    by code_simp
  have f: "(\<forall>s. x \<noteq> CStr s) \<longrightarrow> normalize_text L x = [] \<and> normalize_text7 L x = []"
    using normalize_text_not_str by blast
  show ?thesis using a b c d e f by blast
qed

theorem normalize_text_witness:
  "tables_closed latin1
   \<and> normalize_text latin1 (CStr (normalize_text latin1 (CStr ([68, 233] @ lit ''bitos''))))
       = normalize_text latin1 (CStr ([68, 233] @ lit ''bitos''))
   \<and> normalize_text latin1 (CStr ([68, 233] @ lit ''bitos'')) = lit ''debitos''
   \<and> normalize_text7 latin1 (CStr (normalize_text7 latin1 (CStr ([68, 233] @ lit ''bitos''))))
       = normalize_text7 latin1 (CStr ([68, 233] @ lit ''bitos''))
   \<and> normalize_text latin1 (CInt 5) = [] \<and> normalize_text7 latin1 (CInt 5) = []"
proof -
  have t: "tables_closed latin1" by (rule latin1_tables_closed)
  have v: "normalize_text latin1 (CStr ([68, 233] @ lit ''bitos'')) = lit ''debitos''" by code_simp
  have n: "\<forall>s. CInt 5 \<noteq> CStr s" by simp
  show ?thesis
    using t v n normalize_text_idempotent_insensitive_total[of latin1 "CStr ([68, 233] @ lit ''bitos'')"]
      normalize_text_idempotent_insensitive_total[of latin1 "CInt 5"]
    by blast
qed

section \<open>Properties of the floats\<close>

subsection \<open>Comparisons\<close>

lemma epsilon_value: "epsilon = Finite (4835703278458517 / 2 ^ 82)"
  by code_simp

lemma float_le_iff: "float_le a b \<longleftrightarrow> a \<noteq> NaN \<and> b \<noteq> NaN \<and> \<not> float_gt a b"
  by (cases a; cases b) (auto simp: float_le_def float_gt_def float_value_def)

lemma zero_not_above:
  "\<not> float_gt (Finite 0) (Finite 0)" "\<not> float_gt (Finite 0) epsilon" "float_le (Finite 0) epsilon"
  by (simp_all add: epsilon_value float_gt_def float_le_def float_value_def)

lemma float_gt_epsilon_zero: "float_gt x epsilon \<Longrightarrow> float_gt x (Finite 0)"
  by (cases x) (auto simp: epsilon_value float_gt_def float_value_def)

subsection \<open>The characters of a number\<close>

lemma set_dropWhile: "set xs \<subseteq> set (dropWhile P xs) \<union> {x. P x}"
  by (induction xs) auto

lemma set_strip_both:
  "set s \<subseteq> set (rev (dropWhile P (rev (dropWhile P s)))) \<union> {x. P x}"
proof -
  have 1: "set s \<subseteq> set (dropWhile P s) \<union> {x. P x}" by (rule set_dropWhile)
  have "set (rev (dropWhile P s)) \<subseteq> set (dropWhile P (rev (dropWhile P s))) \<union> {x. P x}"
    by (rule set_dropWhile)
  then have 2: "set (dropWhile P s) \<subseteq> set (dropWhile P (rev (dropWhile P s))) \<union> {x. P x}"
    by (simp only: set_rev)
  have "set s \<subseteq> set (dropWhile P (rev (dropWhile P s))) \<union> {x. P x}" using 1 2 by blast
  then show ?thesis by (simp only: set_rev)
qed

lemma set_ascii_strip: "set s \<subseteq> set (ascii_strip s) \<union> {c. is_ascii_space c}"
  unfolding ascii_strip_def by (rule set_strip_both)

lemma set_py_strip: "set s \<subseteq> set (py_strip s) \<union> {c. is_space c}"
  unfolding py_strip_def by (rule set_strip_both)

lemma set_py_replace: "c \<in> set s \<Longrightarrow> c \<noteq> k \<Longrightarrow> c \<in> set (py_replace k r s)"
  by (induction s) (auto simp: py_replace_def)

lemma set_number_text: "c \<in> set s \<Longrightarrow> c \<noteq> 32 \<Longrightarrow> c \<noteq> 44 \<Longrightarrow> c \<noteq> 46 \<Longrightarrow> c \<in> set (number_text s)"
  by (auto simp: number_text_def Let_def intro!: set_py_replace)

lemma digitpart_tail_chars: "digitpart_tail s \<Longrightarrow> c \<in> set s \<Longrightarrow> is_digit c \<or> c = 95"
  by (induction s rule: digitpart_tail.induct) (auto split: if_splits)

lemma is_digitpart_chars: "is_digitpart s \<Longrightarrow> c \<in> set s \<Longrightarrow> is_digit c \<or> c = 95"
  by (cases s) (auto simp: is_digitpart_def dest: digitpart_tail_chars)

lemma parse_mantissa_chars:
  assumes "parse_mantissa m = Some v" "c \<in> set m"
  shows "is_digit c \<or> c = 95 \<or> c = 46"
proof -
  let ?ip = "takeWhile (\<lambda>c. c \<noteq> 46) m" and ?rest = "dropWhile (\<lambda>c. c \<noteq> 46) m"
  have m: "m = ?ip @ ?rest" by simp
  show ?thesis
  proof (cases ?rest)
    case Nil
    from assms(1) have "is_digitpart ?ip" unfolding parse_mantissa_def Let_def Nil by (simp split: if_splits)
    moreover have "c \<in> set ?ip" using m Nil assms(2) by (metis append_Nil2)
    ultimately show ?thesis using is_digitpart_chars by blast
  next
    case (Cons d fp)
    then have d: "d = 46" using hd_dropWhile[of "\<lambda>c. c \<noteq> 46" m] by (metis list.distinct(1) list.sel(1))
    from assms(1) have p: "(?ip = [] \<or> is_digitpart ?ip) \<and> (fp = [] \<or> is_digitpart fp)"
      unfolding parse_mantissa_def Let_def Cons by (simp split: if_splits)
    have "c \<in> set ?ip \<or> c = d \<or> c \<in> set fp" using m Cons assms(2)
      by (metis Un_iff set_ConsD set_append)
    then show ?thesis using p d is_digitpart_chars by fastforce
  qed
qed

lemma split_sign_chars: "split_sign s = (neg, body) \<Longrightarrow> c \<in> set s \<Longrightarrow> c \<in> set body \<or> c = 45 \<or> c = 43"
  by (cases s) (auto simp: split_sign_def split: if_splits)

lemma parse_exponent_chars:
  assumes "parse_exponent e = Some k" "c \<in> set e"
  shows "is_digit c \<or> c = 95 \<or> c = 45 \<or> c = 43"
proof -
  obtain neg ds where s: "split_sign e = (neg, ds)" by (cases "split_sign e")
  then have "is_digitpart ds" using assms(1) by (auto simp: parse_exponent_def split: if_splits)
  then show ?thesis using split_sign_chars[OF s assms(2)] is_digitpart_chars by blast
qed

lemma ascii_lower_chars:
  assumes "ascii_lower body = word" "c \<in> set body"
  shows "c \<in> set word \<or> (65 \<le> c \<and> c \<le> 90 \<and> c + 32 \<in> set word)"
proof -
  have "(if 65 \<le> c \<and> c \<le> 90 then c + 32 else c) \<in> set (ascii_lower body)"
    using assms(2) unfolding ascii_lower_def by (simp add: image_iff)
  then show ?thesis using assms(1) by (auto split: if_splits)
qed

lemma py_float_body_chars:
  assumes "py_float L text = Some x" "a \<in> set (map (to_ascii L) text)"
  shows "float_alphabet a"
proof -
  let ?u = "map (to_ascii L) text"
  obtain neg body where s: "split_sign (ascii_strip ?u) = (neg, body)" by (cases "split_sign (ascii_strip ?u)")
  have "a \<in> set (ascii_strip ?u) \<or> is_ascii_space a" using assms(2) set_ascii_strip[of ?u] by auto
  then consider "is_ascii_space a" | "a = 45 \<or> a = 43" | "a \<in> set body"
    using split_sign_chars[OF s] by blast
  then show ?thesis
  proof cases
    case 1 then show ?thesis by (simp add: float_alphabet_def)
  next
    case 2 then show ?thesis by (auto simp: float_alphabet_def)
  next
    case 3
    show ?thesis
    proof (cases "ascii_lower body = lit ''inf'' \<or> ascii_lower body = lit ''infinity'' \<or> ascii_lower body = lit ''nan''")
      case True
      then have "a \<in> set (lit ''infinity'') \<or> a \<in> set (lit ''nan'')
                 \<or> (65 \<le> a \<and> a \<le> 90 \<and> (a + 32 \<in> set (lit ''infinity'') \<or> a + 32 \<in> set (lit ''nan'')))"
        using ascii_lower_chars[OF _ 3] by fastforce
      then show ?thesis by (auto simp: float_alphabet_def)
    next
      case False
      let ?m = "takeWhile (\<lambda>c. c \<noteq> 101 \<and> c \<noteq> 69) body" and ?rest = "dropWhile (\<lambda>c. c \<noteq> 101 \<and> c \<noteq> 69) body"
      have b: "body = ?m @ ?rest" by simp
      from assms(1) s False obtain v where v: "parse_mantissa ?m = Some v"
        and ex: "(case ?rest of [] \<Rightarrow> Some 0 | _ # e \<Rightarrow> parse_exponent e) \<noteq> None"
        by (auto simp: py_float_def Let_def split: option.splits)
      from 3 have "a \<in> set (?m @ ?rest)" by simp
      then have "a \<in> set ?m \<or> a \<in> set ?rest" unfolding set_append Un_iff .
      then show ?thesis
      proof
        assume "a \<in> set ?m"
        then have "is_digit a \<or> a = 95 \<or> a = 46" by (rule parse_mantissa_chars[OF v])
        then show ?thesis by (auto simp: float_alphabet_def)
      next
        assume r: "a \<in> set ?rest"
        then obtain d e where re: "?rest = d # e" by (cases ?rest) auto
        then have d: "d = 101 \<or> d = 69" using hd_dropWhile[of "\<lambda>c. c \<noteq> 101 \<and> c \<noteq> 69" body]
          by (metis list.distinct(1) list.sel(1))
        from ex obtain k where k: "parse_exponent e = Some k" unfolding re by auto
        from r have "a = d \<or> a \<in> set e" unfolding re by simp
        then have "a = 101 \<or> a = 69 \<or> is_digit a \<or> a = 95 \<or> a = 45 \<or> a = 43"
          using d parse_exponent_chars[OF k, of a] by blast
        then show ?thesis by (auto simp: float_alphabet_def)
      qed
    qed
  qed
qed

lemma py_float_chars:
  assumes "py_float L text = Some x" "c \<in> set text"
  shows "number_char L c"
proof -
  have a: "float_alphabet (to_ascii L c)" using assms py_float_body_chars by simp
  show ?thesis
  proof (cases "c < 127")
    case True
    then have "float_alphabet c" using a by (simp add: to_ascii_def)
    then show ?thesis
      by (auto simp: float_alphabet_def number_char_def digit_value_def is_ascii_space_def is_space_def)
  next
    case False
    show ?thesis
    proof (cases "is_space c \<or> decimal L c \<noteq> None")
      case True
      then show ?thesis using False by (auto simp: number_char_def digit_value_def is_digit_def)
    next
      case no: False
      then have "to_ascii L c = 63" using False by (simp add: to_ascii_def)
      then show ?thesis using a by (simp add: float_alphabet_def is_digit_def is_ascii_space_def)
    qed
  qed
qed

lemma py_float_foreign_char:
  assumes "c \<in> set s" "\<not> number_char L c"
  shows "py_strip s \<noteq> [] \<and> py_float L (number_text (py_strip s)) = None"
proof -
  have n: "\<not> is_space c" "c \<noteq> 32" "c \<noteq> 44" "c \<noteq> 46" using assms(2) by (auto simp: number_char_def is_space_def)
  have p: "c \<in> set (py_strip s)" using assms(1) n(1) set_py_strip[of s] by auto
  then have t: "c \<in> set (number_text (py_strip s))" using n(2,3,4) by (rule set_number_text)
  have "py_float L (number_text (py_strip s)) = None"
  proof (cases "py_float L (number_text (py_strip s))")
    case None then show ?thesis .
  next
    case (Some x)
    then have "number_char L c" using t by (rule py_float_chars)
    then show ?thesis using assms(2) by simp
  qed
  then show ?thesis using p by auto
qed

subsection \<open>Integers that have a float\<close>

lemma bit_length_le: "n < 2 ^ k \<Longrightarrow> bit_length n \<le> k"
proof (induction k arbitrary: n)
  case 0
  then have "n = 0" by simp
  then show ?case by (simp add: bit_length.simps)
next
  case (Suc k)
  show ?case
  proof (cases "n = 0")
    case True
    then show ?thesis by (simp add: bit_length.simps)
  next
    case False
    have "n div 2 < 2 ^ k" using Suc.prems by simp
    then have "bit_length (n div 2) \<le> k" by (rule Suc.IH)
    then show ?thesis using False by (subst bit_length.simps) simp
  qed
qed

lemma bit_length_gt: "2 ^ k \<le> n \<Longrightarrow> k < bit_length n"
proof (induction k arbitrary: n)
  case 0
  then have "n \<noteq> 0" by simp
  then show ?case by (subst bit_length.simps) simp
next
  case (Suc k)
  have "(0::nat) < 2 ^ Suc k" by simp
  with Suc.prems have n: "n \<noteq> 0" by linarith
  have "2 ^ k \<le> n div 2" using Suc.prems by simp
  then have "k < bit_length (n div 2)" by (rule Suc.IH)
  then show ?case using n by (subst bit_length.simps) simp
qed

lemma floor_log2_of_nat:
  assumes "0 < n"
  shows "floor_log2 (of_nat n) = int (bit_length n) - 1"
proof -
  have "(1::rat) \<le> of_nat n" using assms by simp
  then show ?thesis by (simp add: floor_log2_def)
qed

lemma round_positive_small:
  assumes "0 < n" "n < 2 ^ 1023"
  shows "round_positive (of_nat n) \<noteq> None"
proof -
  have "bit_length n \<le> 1023" using assms(2) by (rule bit_length_le)
  then have f: "floor_log2 (of_nat n :: rat) \<le> 1022" using assms(1) by (simp add: floor_log2_of_nat)
  show ?thesis unfolding round_positive_def Let_def using f by (auto split: if_splits)
qed

lemma round_positive_large:
  assumes "2 ^ 1024 \<le> n"
  shows "round_positive (of_nat n) = None"
proof -
  have "1024 < bit_length n" using assms by (rule bit_length_gt)
  moreover have "(0::nat) < 2 ^ 1024" by simp
  then have "0 < n" using assms by linarith
  ultimately have f: "1024 \<le> floor_log2 (of_nat n :: rat)" by (simp add: floor_log2_of_nat)
  show ?thesis unfolding round_positive_def Let_def using f by simp
qed

lemma of_int_abs_nat: "(of_int \<bar>i\<bar> :: rat) = of_nat (nat \<bar>i\<bar>)"
  by simp

lemma float_of_int_returns: "\<bar>i\<bar> < 2 ^ 1023 \<Longrightarrow> \<exists>x. float_of_int i = Inr x"
proof (cases "i = 0")
  case True
  then show ?thesis by (simp add: float_of_int_def)
next
  case False
  assume "\<bar>i\<bar> < 2 ^ 1023"
  then have "nat \<bar>i\<bar> < 2 ^ 1023" by (simp add: nat_less_iff)
  moreover have "0 < nat \<bar>i\<bar>" using False by simp
  ultimately have "round_positive (of_nat (nat \<bar>i\<bar>)) \<noteq> None" by (intro round_positive_small)
  then show ?thesis using False unfolding float_of_int_def of_int_abs_nat by (auto split: option.splits)
qed

lemma float_of_int_overflow: "2 ^ 1024 \<le> \<bar>i\<bar> \<Longrightarrow> float_of_int i = Inl OverflowError"
proof -
  assume a: "2 ^ 1024 \<le> \<bar>i\<bar>"
  then have "i \<noteq> 0" by auto
  moreover have "2 ^ 1024 \<le> nat \<bar>i\<bar>" using a by (simp add: le_nat_iff)
  then have "round_positive (of_nat (nat \<bar>i\<bar>)) = None" by (rule round_positive_large)
  ultimately show ?thesis unfolding float_of_int_def of_int_abs_nat by simp
qed

section \<open>Properties of the keyword codification and the code replacement (case 7)\<close>

subsection \<open>Loops over the rows\<close>

lemma for_each_row_Inr:
  "for_each_row body rows = Inr rows' \<Longrightarrow>
     length rows' = length rows \<and> (\<forall>i<length rows. body (rows ! i) = Inr (rows' ! i))"
proof (induction rows arbitrary: rows')
  case Nil
  then show ?case by simp
next
  case (Cons r rs)
  from Cons.prems obtain r' rs' where r: "body r = Inr r'" and rs: "for_each_row body rs = Inr rs'"
    and e: "rows' = r' # rs'"
    by (auto split: sum.splits)
  from Cons.IH[OF rs] have l: "length rs' = length rs" and n: "\<forall>i<length rs. body (rs ! i) = Inr (rs' ! i)"
    by simp_all
  show ?case
  proof (intro conjI allI impI)
    show "length rows' = length (r # rs)" using e l by simp
    fix i assume "i < length (r # rs)"
    then show "body ((r # rs) ! i) = Inr (rows' ! i)" using r n e by (cases i) simp_all
  qed
qed

lemma for_each_row_all:
  "(\<forall>r\<in>set rows. body r = Inr (g r)) \<Longrightarrow> for_each_row body rows = Inr (map g rows)"
  by (induction rows) simp_all

subsection \<open>Cells without amount\<close>

lemma to_number_no_amount: "no_amount L v \<Longrightarrow> to_number L v = Inr (Finite 0)"
  by (cases v) (auto simp: no_amount_def to_number_def Let_def)

lemma no_amount_foreign_char: "c \<in> set s \<Longrightarrow> \<not> number_char L c \<Longrightarrow> no_amount L (CStr s)"
  using py_float_foreign_char[of c s L] by (simp add: no_amount_def)

lemma to_number_returns: "(\<forall>i. v = CInt i \<longrightarrow> \<bar>i\<bar> < 2 ^ 1023) \<Longrightarrow> \<exists>x. to_number L v = Inr x"
proof (cases v)
  case (CInt i)
  assume "\<forall>i. v = CInt i \<longrightarrow> \<bar>i\<bar> < 2 ^ 1023"
  then have "\<bar>i\<bar> < 2 ^ 1023" using CInt by simp
  then show ?thesis using CInt float_of_int_returns[of i]
    by (simp add: to_number_def is_number_def float_of_number_def)
next
  case (CStr s)
  then show ?thesis by (simp add: to_number_def Let_def split: option.splits)
qed (simp_all add: to_number_def is_number_def float_of_number_def)

lemma to_number_overflow: "2 ^ 1024 \<le> \<bar>i\<bar> \<Longrightarrow> to_number L (CInt i) = Inl OverflowError"
  by (simp add: to_number_def is_number_def float_of_number_def float_of_int_overflow)

subsection \<open>The code that the rules determine\<close>

lemma determine_codification_cases:
  "determine_codification L row rules =
     (let nd = normalize_text7 L (row_get row Descripcion) in
      if nd = [] then Inr []
      else
        case to_number L (row_get row Creditos) of
          Inl e \<Rightarrow> Inl e
        | Inr c \<Rightarrow>
            (case to_number L (row_get row Debitos) of
               Inl e \<Rightarrow> Inl e
             | Inr d \<Rightarrow>
                 Inr (if float_gt c (Finite 0) \<and> match_codification nd (credit_rules rules) \<noteq> []
                      then match_codification nd (credit_rules rules)
                      else if float_gt d (Finite 0) then match_codification nd (debit_rules rules)
                      else [])))"
  by (cases "row_get row Descripcion")
     (simp_all add: determine_codification_def normalize_text7_def Let_def split: sum.splits)

lemma or_empty_row_get:
  "or_empty (case row Codigo of Some v \<Rightarrow> v | None \<Rightarrow> CStr []) = or_empty (row_get row Codigo)"
  by (simp add: or_empty_def row_get_def truthy_def split: option.splits)

lemma assign_code_cases:
  "assign_code L rules row =
     (case determine_codification L row rules of
        Inl e \<Rightarrow> Inl e
      | Inr code \<Rightarrow>
          Inr (row(Codigo \<mapsto> (if code \<noteq> [] then CStr code else or_empty (row_get row Codigo)))))"
  by (simp add: assign_code_def or_empty_row_get split: sum.splits)

subsection \<open>The replacement of one row\<close>

lemma update_code_row7_no_amount:
  assumes "no_amount L (row_get row k)" "update_code_row7 L m k k' row = Inr row'"
  shows "row' = row"
  using assms(2) unfolding update_code_row7_def to_number_no_amount[OF assms(1)]
  by (simp add: zero_not_above split: sum.splits if_splits)

lemma update_code_row7_no_amounts:
  assumes "no_amount L (row_get row k)" "no_amount L (row_get row k')"
  shows "update_code_row7 L m k k' row = Inr row"
  unfolding update_code_row7_def to_number_no_amount[OF assms(1)] to_number_no_amount[OF assms(2)]
  by (simp add: zero_not_above)

lemma pass7_nth:
  assumes "i < length rows"
  shows "update_codes_for_positive_debits7 L m rows = Inr rows' \<Longrightarrow>
           rows' ! i = rows ! i \<or> update_code_row7 L m Debitos Creditos (rows ! i) = Inr (rows' ! i)"
    and "update_codes_for_non_negative_credits7 L m rows = Inr rows' \<Longrightarrow>
           rows' ! i = rows ! i \<or> update_code_row7 L m Creditos Debitos (rows ! i) = Inr (rows' ! i)"
  using assms for_each_row_Inr[of "update_code_row7 L m Debitos Creditos" rows rows']
    for_each_row_Inr[of "update_code_row7 L m Creditos Debitos" rows rows']
  by (auto simp: update_codes_for_positive_debits7_def update_codes_for_non_negative_credits7_def
           split: list.splits if_splits)

lemma pass7_length:
  "update_codes_for_positive_debits7 L m rows = Inr rows' \<Longrightarrow> length rows' = length rows"
  "update_codes_for_non_negative_credits7 L m rows = Inr rows' \<Longrightarrow> length rows' = length rows"
  using for_each_row_Inr[of "update_code_row7 L m Debitos Creditos" rows rows']
    for_each_row_Inr[of "update_code_row7 L m Creditos Debitos" rows rows']
  by (auto simp: update_codes_for_positive_debits7_def update_codes_for_non_negative_credits7_def
           split: list.splits if_splits)

lemma sign_exclusive_remap7_no_amount:
  assumes "i < length rows" "no_amount L (row_get (rows ! i) Debitos)" "no_amount L (row_get (rows ! i) Creditos)"
    and "sign_exclusive_remap7 L dm cm rows = Inr rows'"
  shows "rows' ! i = rows ! i"
proof -
  from assms(4) obtain rows1 where 1: "update_codes_for_positive_debits7 L dm rows = Inr rows1"
    and 2: "update_codes_for_non_negative_credits7 L cm rows1 = Inr rows'"
    by (auto simp: sign_exclusive_remap7_def split: sum.splits)
  have a: "rows1 ! i = rows ! i"
    using pass7_nth(1)[OF assms(1) 1] update_code_row7_no_amount[OF assms(2)] by metis
  have "i < length rows1" using assms(1) pass7_length(1)[OF 1] by simp
  from pass7_nth(2)[OF this 2] show ?thesis
    using update_code_row7_no_amount[of L "rows ! i" Creditos cm Debitos] assms(3) a by metis
qed

subsection \<open>Substrings and the first matching rule\<close>

lemma is_prefix_iff: "is_prefix sub s \<longleftrightarrow> (\<exists>suf. s = sub @ suf)"
  by (induction sub s rule: is_prefix.induct) auto

lemma py_in_iff: "py_in sub s \<longleftrightarrow> (\<exists>pre suf. s = pre @ sub @ suf)"
proof (induction s)
  case Nil
  show ?case by simp
next
  case (Cons y ys)
  show ?case
  proof
    assume "py_in sub (y # ys)"
    then consider "is_prefix sub (y # ys)" | "py_in sub ys" by auto
    then show "\<exists>pre suf. y # ys = pre @ sub @ suf"
    proof cases
      case 1
      then obtain suf where "y # ys = sub @ suf" by (auto simp: is_prefix_iff)
      then have "y # ys = [] @ sub @ suf" by simp
      then show ?thesis by blast
    next
      case 2
      then obtain pre suf where "ys = pre @ sub @ suf" using Cons.IH by blast
      then have "y # ys = (y # pre) @ sub @ suf" by simp
      then show ?thesis by blast
    qed
  next
    assume "\<exists>pre suf. y # ys = pre @ sub @ suf"
    then obtain pre suf where e: "y # ys = pre @ sub @ suf" by blast
    show "py_in sub (y # ys)"
    proof (cases pre)
      case Nil
      with e have "is_prefix sub (y # ys)" by (auto simp: is_prefix_iff)
      then show ?thesis by simp
    next
      case (Cons p ps)
      with e have "ys = ps @ sub @ suf" by simp
      then have "py_in sub ys" using Cons.IH by blast
      then show ?thesis by simp
    qed
  qed
qed

lemma match_codification_first:
  "match_codification nd rs =
     (case find (\<lambda>(s, c). s \<noteq> [] \<and> c \<noteq> [] \<and> py_in s nd) rs of Some (s, c) \<Rightarrow> c | None \<Rightarrow> [])"
proof (induction rs)
  case Nil
  show ?case by simp
next
  case (Cons r rs)
  obtain s c where r: "r = (s, c)" by (cases r)
  show ?case
  proof (cases "s \<noteq> [] \<and> c \<noteq> [] \<and> py_in s nd")
    case True
    then show ?thesis using r by simp
  next
    case False
    then have "match_codification nd (r # rs) = match_codification nd rs"
      using r by auto
    moreover have "find (\<lambda>(s, c). s \<noteq> [] \<and> c \<noteq> [] \<and> py_in s nd) (r # rs)
                   = find (\<lambda>(s, c). s \<noteq> [] \<and> c \<noteq> [] \<and> py_in s nd) rs"
      using False r by auto
    ultimately show ?thesis using Cons.IH by simp
  qed
qed

text \<open>
  C9. \<open>_to_number\<close> never returns \<open>None\<close>: for \<open>None\<close>, for the empty string and for
  every string that \<open>float\<close> rejects, among them every text with a character that no
  number has, it returns 0; and it returns a float for every cell other than an
  integer of 1024 bits or more. A debit cell with such a content counts as a zero
  amount: it never lets the debit rules of the keyword codification or the
  positive-debit replacement fire on its row, and a credit cell with such a content
  never lets the credit rules or the credit replacement fire. On a row where both
  amount cells are so, the codification finds no code and the sign-exclusive
  replacement leaves the row as it is. (The other side of a row still fires when its
  cell holds an amount.)
\<close>

theorem to_number_zero_for_unparsable:
  "(no_amount L v \<longrightarrow> to_number L v = Inr (Finite 0))
   \<and> ((\<exists>c\<in>set s. \<not> number_char L c) \<longrightarrow> no_amount L (CStr s))
   \<and> ((\<forall>i. v = CInt i \<longrightarrow> \<bar>i\<bar> < 2 ^ 1023) \<longrightarrow> (\<exists>x. to_number L v = Inr x))
   \<and> (no_amount L (row_get row Debitos) \<longrightarrow>
        (\<forall>row'. update_code_row7 L debit_map Debitos Creditos row = Inr row' \<longrightarrow> row' = row)
        \<and> determine_codification L row rules = determine_codification L row (rules\<lparr>debit_rules := other\<rparr>))
   \<and> (no_amount L (row_get row Creditos) \<longrightarrow>
        (\<forall>row'. update_code_row7 L credit_map Creditos Debitos row = Inr row' \<longrightarrow> row' = row)
        \<and> determine_codification L row rules = determine_codification L row (rules\<lparr>credit_rules := other\<rparr>))
   \<and> (no_amount L (row_get row Debitos) \<and> no_amount L (row_get row Creditos) \<longrightarrow>
        determine_codification L row rules = Inr []
        \<and> assign_code L rules row = Inr (row(Codigo \<mapsto> or_empty (row_get row Codigo)))
        \<and> update_code_row7 L debit_map Debitos Creditos row = Inr row
        \<and> update_code_row7 L credit_map Creditos Debitos row = Inr row
        \<and> (\<forall>rows rows' i. i < length rows \<and> rows ! i = row
              \<and> sign_exclusive_remap7 L debit_map credit_map rows = Inr rows' \<longrightarrow> rows' ! i = row))"
proof -
  have a: "no_amount L v \<longrightarrow> to_number L v = Inr (Finite 0)"
    by (simp add: to_number_no_amount)
  have b: "(\<exists>c\<in>set s. \<not> number_char L c) \<longrightarrow> no_amount L (CStr s)"
    using no_amount_foreign_char by blast
  have c: "(\<forall>i. v = CInt i \<longrightarrow> \<bar>i\<bar> < 2 ^ 1023) \<longrightarrow> (\<exists>x. to_number L v = Inr x)"
    using to_number_returns by blast
  have d: "no_amount L (row_get row Debitos) \<longrightarrow>
        (\<forall>row'. update_code_row7 L debit_map Debitos Creditos row = Inr row' \<longrightarrow> row' = row)
        \<and> determine_codification L row rules = determine_codification L row (rules\<lparr>debit_rules := other\<rparr>)"
    using update_code_row7_no_amount[of L row Debitos debit_map Creditos]
    by (auto simp: determine_codification_cases to_number_no_amount zero_not_above Let_def split: sum.splits)
  have e: "no_amount L (row_get row Creditos) \<longrightarrow>
        (\<forall>row'. update_code_row7 L credit_map Creditos Debitos row = Inr row' \<longrightarrow> row' = row)
        \<and> determine_codification L row rules = determine_codification L row (rules\<lparr>credit_rules := other\<rparr>)"
    using update_code_row7_no_amount[of L row Creditos credit_map Debitos]
    by (auto simp: determine_codification_cases to_number_no_amount zero_not_above Let_def split: sum.splits)
  have f: "no_amount L (row_get row Debitos) \<and> no_amount L (row_get row Creditos) \<longrightarrow>
        determine_codification L row rules = Inr []
        \<and> assign_code L rules row = Inr (row(Codigo \<mapsto> or_empty (row_get row Codigo)))
        \<and> update_code_row7 L debit_map Debitos Creditos row = Inr row
        \<and> update_code_row7 L credit_map Creditos Debitos row = Inr row
        \<and> (\<forall>rows rows' i. i < length rows \<and> rows ! i = row
              \<and> sign_exclusive_remap7 L debit_map credit_map rows = Inr rows' \<longrightarrow> rows' ! i = row)"
  proof (intro impI conjI allI)
    assume n: "no_amount L (row_get row Debitos) \<and> no_amount L (row_get row Creditos)"
    show g: "determine_codification L row rules = Inr []"
      using n by (simp add: determine_codification_cases to_number_no_amount zero_not_above Let_def)
    show "assign_code L rules row = Inr (row(Codigo \<mapsto> or_empty (row_get row Codigo)))"
      by (simp add: assign_code_cases g)
    show "update_code_row7 L debit_map Debitos Creditos row = Inr row"
      using n by (simp add: update_code_row7_no_amounts)
    show "update_code_row7 L credit_map Creditos Debitos row = Inr row"
      using n by (simp add: update_code_row7_no_amounts)
    fix rows rows' i
    assume "i < length rows \<and> rows ! i = row \<and> sign_exclusive_remap7 L debit_map credit_map rows = Inr rows'"
    then show "rows' ! i = row"
      using n sign_exclusive_remap7_no_amount[of i rows L debit_map credit_map rows'] by auto
  qed
  show ?thesis using a b c d e f by blast
qed

theorem to_number_zero_for_unparsable_witness:
  "no_amount latin1 (CStr (lit ''n/a''))
   \<and> to_number latin1 (CStr (lit ''n/a'')) = Inr (Finite 0)
   \<and> (\<exists>x. to_number latin1 (CFloat (Finite 25)) = Inr x)
   \<and> determine_codification latin1
        (sample_row (CStr (lit ''Pago tarjeta'')) (CStr (lit ''n/a'')) (CStr (lit ''--'')) (CStr (lit ''WD'')))
        sample_rules = Inr []
   \<and> codes_of (sign_exclusive_remap7 latin1 sample_debit_map sample_credit_map
        [sample_row (CStr (lit ''Pago tarjeta'')) (CStr (lit ''n/a'')) (CStr (lit ''--'')) (CStr (lit ''WD''))])
       = Inr [CStr (lit ''WD'')]
   \<and> (\<exists>rows'. sign_exclusive_remap7 latin1 sample_debit_map sample_credit_map
        [sample_row (CStr (lit ''Pago tarjeta'')) (CStr (lit ''n/a'')) (CStr (lit ''--'')) (CStr (lit ''WD''))] = Inr rows'
        \<and> rows' ! 0 = sample_row (CStr (lit ''Pago tarjeta'')) (CStr (lit ''n/a'')) (CStr (lit ''--'')) (CStr (lit ''WD'')))"
proof -
  let ?row = "sample_row (CStr (lit ''Pago tarjeta'')) (CStr (lit ''n/a'')) (CStr (lit ''--'')) (CStr (lit ''WD''))"
  have h0: "\<exists>c\<in>set (lit ''n/a''). \<not> number_char latin1 c" by code_simp
  have h2: "no_amount latin1 (row_get ?row Debitos)" by code_simp
  have h3: "no_amount latin1 (row_get ?row Creditos)" by code_simp
  have h4: "\<forall>i. CFloat (Finite 25) = CInt i \<longrightarrow> \<bar>i\<bar> < 2 ^ 1023" by simp
  have h5: "codes_of (sign_exclusive_remap7 latin1 sample_debit_map sample_credit_map [?row]) = Inr [CStr (lit ''WD'')]"
    by code_simp
  note t = to_number_zero_for_unparsable[of latin1 "CStr (lit ''n/a'')" "lit ''n/a''" ?row sample_debit_map
      sample_rules _ sample_credit_map]
  note u = to_number_zero_for_unparsable[of latin1 "CFloat (Finite 25)"]
  have h1: "no_amount latin1 (CStr (lit ''n/a''))" using t h0 by blast
  have c1: "to_number latin1 (CStr (lit ''n/a'')) = Inr (Finite 0)" using t h1 by blast
  have c2: "\<exists>x. to_number latin1 (CFloat (Finite 25)) = Inr x" using u h4 by blast
  have c3: "determine_codification latin1 ?row sample_rules = Inr []" using t h2 h3 by blast
  have "\<not> isl (sign_exclusive_remap7 latin1 sample_debit_map sample_credit_map [?row])" by code_simp
  then obtain rows' where r: "sign_exclusive_remap7 latin1 sample_debit_map sample_credit_map [?row] = Inr rows'"
    by (cases "sign_exclusive_remap7 latin1 sample_debit_map sample_credit_map [?row]") auto
  have "(0::nat) < length [?row] \<and> [?row] ! 0 = ?row" by simp
  then have "rows' ! 0 = ?row" using t h2 h3 r by blast
  then have c4: "\<exists>rows'. sign_exclusive_remap7 latin1 sample_debit_map sample_credit_map [?row] = Inr rows'
              \<and> rows' ! 0 = ?row" using r by blast
  show ?thesis using h1 c1 c2 c3 h5 c4 by blast
qed

text \<open>
  A row whose debit cell holds the text "n/a" and whose credit is 100: the debit counts
  as 0, and yet the keyword codification gives the row the code of a credit rule and
  the credit replacement rewrites the code WD.
\<close>

theorem to_number_other_side_counterexample:
  "no_amount latin1 (CStr (lit ''n/a''))
   \<and> to_number latin1 (CStr (lit ''n/a'')) = Inr (Finite 0)
   \<and> determine_codification latin1
        (sample_row (CStr (lit ''Pago tarjeta'')) (CStr (lit ''n/a'')) (CInt 100) (CStr (lit ''WD'')))
        sample_rules = Inr (lit ''CR1'')
   \<and> codes_of (assign_codes_by_description latin1 sample_rules
        [sample_row (CStr (lit ''Pago tarjeta'')) (CStr (lit ''n/a'')) (CInt 100) (CStr (lit ''WD''))])
       = Inr [CStr (lit ''CR1'')]
   \<and> codes_of (sign_exclusive_remap7 latin1 sample_debit_map sample_credit_map
        [sample_row (CStr (lit ''Pago tarjeta'')) (CStr (lit ''n/a'')) (CInt 100) (CStr (lit ''WD''))])
       = Inr [CStr (lit ''T/C'')]"
proof -
  let ?row = "sample_row (CStr (lit ''Pago tarjeta'')) (CStr (lit ''n/a'')) (CInt 100) (CStr (lit ''WD''))"
  have a: "no_amount latin1 (CStr (lit ''n/a''))" by code_simp
  have b: "to_number latin1 (CStr (lit ''n/a'')) = Inr (Finite 0)" by code_simp
  have c: "determine_codification latin1 ?row sample_rules = Inr (lit ''CR1'')" by code_simp
  have d: "codes_of (assign_codes_by_description latin1 sample_rules [?row]) = Inr [CStr (lit ''CR1'')]"
    by code_simp
  have e: "codes_of (sign_exclusive_remap7 latin1 sample_debit_map sample_credit_map [?row]) = Inr [CStr (lit ''T/C'')]"
    by code_simp
  show ?thesis using a b c d e by blast
qed

text \<open>
  C3. Keyword codification of a record whose amounts are \<open>credit\<close> and \<open>debit\<close>, where
  \<open>nd\<close> is the normalised description: with a credit above 0 the credit rules are tried
  first and their match, when there is one, is the code; when the credit is not above
  0, or no credit rule matches, and the debit is above 0, the debit rules are tried;
  otherwise there is no code. With a credit above 0, the debit rules play no part
  when the debit is not above 0, nor when a credit rule matches: a debit-rule match
  never overrides a credit-rule match. A match is the code of the first rule, in the
  configured order, whose text is a substring of the normalised description. When no
  code is found the record keeps its code if the code is a true value, and gets the
  empty string as its code otherwise; no other field changes.
\<close>

theorem determine_codification_credit_then_debit:
  fixes L :: pylib and row :: row7 and rules :: codification_rules
  defines "nd \<equiv> normalize_text7 L (row_get row Descripcion)"
  assumes credit: "to_number L (row_get row Creditos) = Inr credit"
    and debit: "to_number L (row_get row Debitos) = Inr debit"
  shows
    "(float_gt credit (Finite 0) \<and> nd \<noteq> [] \<and> match_codification nd (credit_rules rules) \<noteq> []
        \<longrightarrow> determine_codification L row rules = Inr (match_codification nd (credit_rules rules)))
     \<and> ((\<not> float_gt credit (Finite 0) \<or> match_codification nd (credit_rules rules) = [])
          \<and> float_gt debit (Finite 0) \<and> nd \<noteq> []
        \<longrightarrow> determine_codification L row rules = Inr (match_codification nd (debit_rules rules)))
     \<and> ((\<not> float_gt credit (Finite 0) \<and> \<not> float_gt debit (Finite 0)) \<or> nd = []
        \<longrightarrow> determine_codification L row rules = Inr [])
     \<and> (float_gt credit (Finite 0) \<and> \<not> float_gt debit (Finite 0)
        \<longrightarrow> determine_codification L row rules
              = Inr (if nd = [] then [] else match_codification nd (credit_rules rules))
            \<and> determine_codification L row rules
              = determine_codification L row (rules\<lparr>debit_rules := other\<rparr>))
     \<and> (float_gt credit (Finite 0) \<and> match_codification nd (credit_rules rules) \<noteq> []
        \<longrightarrow> determine_codification L row rules
              = determine_codification L row (rules\<lparr>debit_rules := other\<rparr>))
     \<and> match_codification nd rs
         = (case find (\<lambda>(s, c). s \<noteq> [] \<and> c \<noteq> [] \<and> py_in s nd) rs of Some (s, c) \<Rightarrow> c | None \<Rightarrow> [])
     \<and> (py_in s nd \<longleftrightarrow> (\<exists>pre suf. nd = pre @ s @ suf))
     \<and> (determine_codification L row rules = Inr [] \<longrightarrow>
          assign_code L rules row = Inr (row(Codigo \<mapsto> or_empty (row_get row Codigo)))
          \<and> (truthy (row_get row Codigo) \<longrightarrow> or_empty (row_get row Codigo) = row_get row Codigo)
          \<and> (\<not> truthy (row_get row Codigo) \<longrightarrow> or_empty (row_get row Codigo) = CStr []))
     \<and> (\<forall>code. determine_codification L row rules = Inr code \<and> code \<noteq> [] \<longrightarrow>
          assign_code L rules row = Inr (row(Codigo \<mapsto> CStr code)))"
proof -
  note d = determine_codification_cases[of L row rules, unfolded credit debit, folded nd_def]
  note d' = determine_codification_cases[of L row "rules\<lparr>debit_rules := other\<rparr>", unfolded credit debit, folded nd_def]
  have 1: "float_gt credit (Finite 0) \<and> nd \<noteq> [] \<and> match_codification nd (credit_rules rules) \<noteq> []
        \<longrightarrow> determine_codification L row rules = Inr (match_codification nd (credit_rules rules))"
    by (simp add: d Let_def)
  have 2: "(\<not> float_gt credit (Finite 0) \<or> match_codification nd (credit_rules rules) = [])
          \<and> float_gt debit (Finite 0) \<and> nd \<noteq> []
        \<longrightarrow> determine_codification L row rules = Inr (match_codification nd (debit_rules rules))"
    by (auto simp: d Let_def)
  have 3: "(\<not> float_gt credit (Finite 0) \<and> \<not> float_gt debit (Finite 0)) \<or> nd = []
        \<longrightarrow> determine_codification L row rules = Inr []"
    by (auto simp: d Let_def)
  have 4: "float_gt credit (Finite 0) \<and> \<not> float_gt debit (Finite 0)
        \<longrightarrow> determine_codification L row rules
              = Inr (if nd = [] then [] else match_codification nd (credit_rules rules))
            \<and> determine_codification L row rules
              = determine_codification L row (rules\<lparr>debit_rules := other\<rparr>)"
    by (auto simp: d d' Let_def)
  have 5: "float_gt credit (Finite 0) \<and> match_codification nd (credit_rules rules) \<noteq> []
        \<longrightarrow> determine_codification L row rules
              = determine_codification L row (rules\<lparr>debit_rules := other\<rparr>)"
    by (auto simp: d d' Let_def)
  have 6: "match_codification nd rs
         = (case find (\<lambda>(s, c). s \<noteq> [] \<and> c \<noteq> [] \<and> py_in s nd) rs of Some (s, c) \<Rightarrow> c | None \<Rightarrow> [])"
    by (rule match_codification_first)
  have 7: "py_in s nd \<longleftrightarrow> (\<exists>pre suf. nd = pre @ s @ suf)" by (rule py_in_iff)
  have 8: "determine_codification L row rules = Inr [] \<longrightarrow>
          assign_code L rules row = Inr (row(Codigo \<mapsto> or_empty (row_get row Codigo)))
          \<and> (truthy (row_get row Codigo) \<longrightarrow> or_empty (row_get row Codigo) = row_get row Codigo)
          \<and> (\<not> truthy (row_get row Codigo) \<longrightarrow> or_empty (row_get row Codigo) = CStr [])"
    by (simp add: assign_code_cases or_empty_def)
  have 9: "\<forall>code. determine_codification L row rules = Inr code \<and> code \<noteq> [] \<longrightarrow>
          assign_code L rules row = Inr (row(Codigo \<mapsto> CStr code))"
    by (simp add: assign_code_cases)
  show ?thesis using 1 2 3 4 5 6 7 8 9 by blast
qed

theorem determine_codification_witness:
  "to_number latin1 (CStr (lit ''1.500,00'')) = Inr (Finite 1500)
   \<and> determine_codification latin1
        (sample_row (CStr (lit ''Pago Tarjeta'')) (CInt 0) (CStr (lit ''1.500,00'')) (CStr (lit ''WD''))) sample_rules
       = Inr (lit ''CR1'')
   \<and> determine_codification latin1
        (sample_row (CStr (lit ''Pago Tarjeta'')) (CFloat (Finite 25)) CNone (CStr (lit ''WD''))) sample_rules
       = Inr (lit ''DB1'')
   \<and> determine_codification latin1
        (sample_row (CStr (lit ''Cheque 123'')) (CInt 10) (CInt 5) (CStr (lit ''WD''))) sample_rules
       = Inr (lit ''DB9'')
   \<and> assign_code latin1 sample_rules
        (sample_row (CStr (lit ''Traslado'')) (CFloat (Finite 25)) CNone (CStr (lit ''WD'')))
       = Inr ((sample_row (CStr (lit ''Traslado'')) (CFloat (Finite 25)) CNone (CStr (lit ''WD'')))
                (Codigo \<mapsto> CStr (lit ''WD'')))"
proof -
  let ?r1 = "sample_row (CStr (lit ''Pago Tarjeta'')) (CInt 0) (CStr (lit ''1.500,00'')) (CStr (lit ''WD''))"
  let ?r2 = "sample_row (CStr (lit ''Pago Tarjeta'')) (CFloat (Finite 25)) CNone (CStr (lit ''WD''))"
  let ?r3 = "sample_row (CStr (lit ''Cheque 123'')) (CInt 10) (CInt 5) (CStr (lit ''WD''))"
  let ?r4 = "sample_row (CStr (lit ''Traslado'')) (CFloat (Finite 25)) CNone (CStr (lit ''WD''))"
  have n0: "to_number latin1 (CStr (lit ''1.500,00'')) = Inr (Finite 1500)" by code_simp
  have a1: "to_number latin1 (row_get ?r1 Creditos) = Inr (Finite 1500)" by code_simp
  have a2: "to_number latin1 (row_get ?r1 Debitos) = Inr (Finite 0)" by code_simp
  have a3: "float_gt (Finite 1500) (Finite 0)" by code_simp
  have a4: "normalize_text7 latin1 (row_get ?r1 Descripcion) = lit ''pagotarjeta''" by code_simp
  have a5: "match_codification (lit ''pagotarjeta'') (credit_rules sample_rules) = lit ''CR1''" by code_simp
  have c1: "determine_codification latin1 ?r1 sample_rules = Inr (lit ''CR1'')"
    using determine_codification_credit_then_debit[OF a1 a2, of sample_rules, THEN conjunct1] a3 a5
    unfolding a4 by simp
  have b1: "to_number latin1 (row_get ?r2 Creditos) = Inr (Finite 0)" by code_simp
  have b2: "to_number latin1 (row_get ?r2 Debitos) = Inr (Finite 25)" by code_simp
  have b3: "\<not> float_gt (Finite 0) (Finite 0)" "float_gt (Finite 25) (Finite 0)" by code_simp+
  have b4: "normalize_text7 latin1 (row_get ?r2 Descripcion) = lit ''pagotarjeta''" by code_simp
  have b5: "match_codification (lit ''pagotarjeta'') (debit_rules sample_rules) = lit ''DB1''" by code_simp
  have c2: "determine_codification latin1 ?r2 sample_rules = Inr (lit ''DB1'')"
    using determine_codification_credit_then_debit[OF b1 b2, of sample_rules, THEN conjunct2, THEN conjunct1] b3 b5
    unfolding b4 by simp
  have d1: "to_number latin1 (row_get ?r3 Creditos) = Inr (Finite 5)" by code_simp
  have d2: "to_number latin1 (row_get ?r3 Debitos) = Inr (Finite 10)" by code_simp
  have d3: "float_gt (Finite 10) (Finite 0)" by code_simp
  have d4: "normalize_text7 latin1 (row_get ?r3 Descripcion) = lit ''cheque123''" by code_simp
  have d5: "match_codification (lit ''cheque123'') (credit_rules sample_rules) = []" by code_simp
  have d6: "match_codification (lit ''cheque123'') (debit_rules sample_rules) = lit ''DB9''" by code_simp
  have c3: "determine_codification latin1 ?r3 sample_rules = Inr (lit ''DB9'')"
    using determine_codification_credit_then_debit[OF d1 d2, of sample_rules, THEN conjunct2, THEN conjunct1] d3 d5 d6
    unfolding d4 by simp
  have e1: "to_number latin1 (row_get ?r4 Creditos) = Inr (Finite 0)" by code_simp
  have e2: "to_number latin1 (row_get ?r4 Debitos) = Inr (Finite 25)" by code_simp
  have e3: "determine_codification latin1 ?r4 sample_rules = Inr []" by code_simp
  have e4: "or_empty (row_get ?r4 Codigo) = CStr (lit ''WD'')" by code_simp
  have c4: "assign_code latin1 sample_rules ?r4 = Inr (?r4(Codigo \<mapsto> CStr (lit ''WD'')))"
    using determine_codification_credit_then_debit[OF e1 e2, of sample_rules,
        THEN conjunct2, THEN conjunct2, THEN conjunct2, THEN conjunct2, THEN conjunct2, THEN conjunct2,
        THEN conjunct2, THEN conjunct1] e3
    unfolding e4 by simp
  show ?thesis using n0 c1 c2 c3 c4 by blast
qed

text \<open>
  A record with a credit of 5, a debit of 10 and the description "Cheque 123", which no
  credit rule matches: the code is that of the debit rule for "cheque", where the rule
  with "else if" assigns none. And a record without match whose code is the number 0
  leaves with the empty string as its code.
\<close>

theorem determine_codification_else_if_counterexample:
  "to_number latin1 (CInt 5) = Inr (Finite 5) \<and> float_gt (Finite 5) (Finite 0)
   \<and> to_number latin1 (CInt 10) = Inr (Finite 10) \<and> float_gt (Finite 10) (Finite 0)
   \<and> match_codification (normalize_text7 latin1 (CStr (lit ''Cheque 123''))) (credit_rules sample_rules) = []
   \<and> determine_codification latin1
        (sample_row (CStr (lit ''Cheque 123'')) (CInt 10) (CInt 5) (CStr (lit ''WD''))) sample_rules
       = Inr (lit ''DB9'')
   \<and> determine_codification_else_if latin1
        (sample_row (CStr (lit ''Cheque 123'')) (CInt 10) (CInt 5) (CStr (lit ''WD''))) sample_rules
       = Inr []
   \<and> codes_of (assign_codes_by_description latin1 sample_rules
        [sample_row (CStr (lit ''Cheque 123'')) (CInt 10) (CInt 5) (CStr (lit ''WD''))])
       = Inr [CStr (lit ''DB9'')]
   \<and> determine_codification latin1
        (sample_row (CStr (lit ''Traslado'')) (CInt 10) CNone (CInt 0)) sample_rules
       = Inr []
   \<and> codes_of (assign_codes_by_description latin1 sample_rules
        [sample_row (CStr (lit ''Traslado'')) (CInt 10) CNone (CInt 0)])
       = Inr [CStr []]"
proof -
  let ?r = "sample_row (CStr (lit ''Cheque 123'')) (CInt 10) (CInt 5) (CStr (lit ''WD''))"
  let ?q = "sample_row (CStr (lit ''Traslado'')) (CInt 10) CNone (CInt 0)"
  have a: "to_number latin1 (CInt 5) = Inr (Finite 5)" by code_simp
  have b: "float_gt (Finite 5) (Finite 0)" by code_simp
  have c: "to_number latin1 (CInt 10) = Inr (Finite 10)" by code_simp
  have d: "float_gt (Finite 10) (Finite 0)" by code_simp
  have e: "match_codification (normalize_text7 latin1 (CStr (lit ''Cheque 123''))) (credit_rules sample_rules) = []"
    by code_simp
  have f: "determine_codification latin1 ?r sample_rules = Inr (lit ''DB9'')" by code_simp
  have g: "determine_codification_else_if latin1 ?r sample_rules = Inr []" by code_simp
  have h: "codes_of (assign_codes_by_description latin1 sample_rules [?r]) = Inr [CStr (lit ''DB9'')]"
    by code_simp
  have i: "determine_codification latin1 ?q sample_rules = Inr []" by code_simp
  have j: "codes_of (assign_codes_by_description latin1 sample_rules [?q]) = Inr [CStr []]" by code_simp
  show ?thesis using a b c d e f g h i j by blast
qed

end
